theory Spec2Isabelle
  imports Complex_Main "HOL-Library.Word" "HOL-Library.Multiset"
begin

unbundle bit_operations_syntax

section \<open>Machine types\<close>

text \<open>
  The C types of \<^verbatim>\<open>simplex_noise.c\<close>: \<^verbatim>\<open>int\<close> is a 32-bit word read in two's
  complement (\<open>sint\<close>), \<^verbatim>\<open>uint32_t\<close> and \<^verbatim>\<open>uint64_t\<close> are words read unsigned, and a
  \<^verbatim>\<open>double\<close> is its IEEE-754 binary64 bit pattern, so equality of two doubles below is
  equality of all 64 bits. Loop counters that only run between two constants of the
  source (256, 624, 1024) are natural numbers.
\<close>

type_synonym cint = "32 word"
type_synonym u32 = "32 word"
type_synonym u64 = "64 word"
type_synonym double = "64 word"

definition c_lt :: "cint \<Rightarrow> cint \<Rightarrow> bool" where
  "c_lt a b = (sint a < sint b)"

definition c_le :: "cint \<Rightarrow> cint \<Rightarrow> bool" where
  "c_le a b = (sint a \<le> sint b)"

text \<open>C's \<^verbatim>\<open>%\<close> on \<^verbatim>\<open>int\<close> truncates towards zero: the remainder has the sign of the dividend.\<close>

definition c_rem :: "cint \<Rightarrow> cint \<Rightarrow> cint" where
  "c_rem a b = word_of_int (sgn (sint a) * (\<bar>sint a\<bar> mod \<bar>sint b\<bar>))"

section \<open>Double arithmetic (IEEE-754 binary64, round to nearest even)\<close>

definition d_sign :: "double \<Rightarrow> bool" where
  "d_sign x = bit x 63"

definition d_expo :: "double \<Rightarrow> nat" where
  "d_expo x = unat (drop_bit 52 x AND 0x7FF)"

definition d_frac :: "double \<Rightarrow> nat" where
  "d_frac x = unat (x AND 0xFFFFFFFFFFFFF)"

definition is_nan :: "double \<Rightarrow> bool" where
  "is_nan x = (d_expo x = 2047 \<and> d_frac x \<noteq> 0)"

definition is_inf :: "double \<Rightarrow> bool" where
  "is_inf x = (d_expo x = 2047 \<and> d_frac x = 0)"

definition is_zero :: "double \<Rightarrow> bool" where
  "is_zero x = (d_expo x = 0 \<and> d_frac x = 0)"

text \<open>A finite double is \<open>\<plusminus> d_mant x * 2 ^ d_pow x\<close>.\<close>

definition d_mant :: "double \<Rightarrow> nat" where
  "d_mant x = (if d_expo x = 0 then d_frac x else 2 ^ 52 + d_frac x)"

definition d_pow :: "double \<Rightarrow> int" where
  "d_pow x = (if d_expo x = 0 then - 1074 else int (d_expo x) - 1075)"

definition d_zero :: "bool \<Rightarrow> double" where
  "d_zero s = (if s then 0x8000000000000000 else 0)"

definition d_infinity :: "bool \<Rightarrow> double" where
  "d_infinity s = (if s then 0xFFF0000000000000 else 0x7FF0000000000000)"

text \<open>The NaN an invalid operation produces, and the quieting of a NaN operand.\<close>

definition d_default_nan :: double where
  "d_default_nan = 0xFFF8000000000000"

definition d_quiet :: "double \<Rightarrow> double" where
  "d_quiet x = x OR 0x0008000000000000"

fun bitlen :: "nat \<Rightarrow> nat" where
  "bitlen n = (if n = 0 then 0 else Suc (bitlen (n div 2)))"

declare bitlen.simps [simp del]

text \<open>\<open>pow_le q p k\<close> is \<open>q * 2 ^ k \<le> p\<close> for an integer \<open>k\<close> of either sign.\<close>

definition pow_le :: "nat \<Rightarrow> nat \<Rightarrow> int \<Rightarrow> bool" where
  "pow_le q p k = (if 0 \<le> k then q * 2 ^ nat k \<le> p else q \<le> p * 2 ^ nat (- k))"

text \<open>
  \<open>d_round s p q E\<close> is the double nearest to \<open>\<plusminus> (p / q) * 2 ^ E\<close> (sign \<open>s\<close>, \<open>q > 0\<close>),
  ties to the even significand, overflow to infinity, gradual underflow.
\<close>

definition d_round :: "bool \<Rightarrow> nat \<Rightarrow> nat \<Rightarrow> int \<Rightarrow> double" where
  "d_round s p q E =
     (if p = 0 then d_zero s
      else
        let e0 = int (bitlen p) - int (bitlen q);
            e = (if pow_le q p e0 then e0 else e0 - 1);
            ex = max (e + E) (- 1022);
            sh = E - ex + 52;
            num = (if 0 \<le> sh then p * 2 ^ nat sh else p);
            den = (if 0 \<le> sh then q else q * 2 ^ nat (- sh));
            m0 = num div den;
            r = num mod den;
            m = (if den < 2 * r \<or> (2 * r = den \<and> odd m0) then m0 + 1 else m0);
            bits = nat (ex + 1022) * 2 ^ 52 + m
        in if 0x7FF0000000000000 \<le> bits then d_infinity s
           else d_zero s OR word_of_nat bits)"

definition d_lit :: "int \<Rightarrow> nat \<Rightarrow> double" where
  "d_lit p q = d_round (p < 0) (nat \<bar>p\<bar>) q 0"

definition d_of_int :: "cint \<Rightarrow> double" where
  "d_of_int i = d_round (sint i < 0) (nat \<bar>sint i\<bar>) 1 0"

text \<open>
  \<^verbatim>\<open>(int)x\<close> truncates towards zero. C leaves the conversion of a NaN, an infinity or a
  value outside the range of \<^verbatim>\<open>int\<close> undefined; the model returns what the x86-64
  conversion instruction returns then, the pattern \<^verbatim>\<open>0x80000000\<close>.
\<close>

definition d_to_int :: "double \<Rightarrow> cint" where
  "d_to_int x =
     (if d_expo x = 2047 then 0x80000000
      else
        let n = (if 0 \<le> d_pow x then int (d_mant x) * 2 ^ nat (d_pow x)
                 else int (d_mant x) div 2 ^ nat (- d_pow x));
            v = (if d_sign x then - n else n)
        in if - 2147483648 \<le> v \<and> v \<le> 2147483647 then word_of_int v else 0x80000000)"

definition d_sval :: "double \<Rightarrow> int \<Rightarrow> int" where
  "d_sval x E = (if d_sign x then - 1 else 1) * int (d_mant x) * 2 ^ nat (d_pow x - E)"

definition fadd :: "double \<Rightarrow> double \<Rightarrow> double" where
  "fadd a b =
     (if is_nan a then d_quiet a
      else if is_nan b then d_quiet b
      else if is_inf a then (if is_inf b \<and> d_sign a \<noteq> d_sign b then d_default_nan else a)
      else if is_inf b then b
      else
        let E = min (d_pow a) (d_pow b);
            S = d_sval a E + d_sval b E
        in if S = 0 then d_zero (d_sign a \<and> d_sign b)
           else d_round (S < 0) (nat \<bar>S\<bar>) 1 E)"

definition fneg :: "double \<Rightarrow> double" where
  "fneg a = a XOR 0x8000000000000000"

definition fsub :: "double \<Rightarrow> double \<Rightarrow> double" where
  "fsub a b =
     (if is_nan a then d_quiet a
      else if is_nan b then d_quiet b
      else fadd a (fneg b))"

definition fmul :: "double \<Rightarrow> double \<Rightarrow> double" where
  "fmul a b =
     (if is_nan a then d_quiet a
      else if is_nan b then d_quiet b
      else
        let s = (d_sign a \<noteq> d_sign b)
        in if (is_inf a \<and> is_zero b) \<or> (is_zero a \<and> is_inf b) then d_default_nan
           else if is_inf a \<or> is_inf b then d_infinity s
           else d_round s (d_mant a * d_mant b) 1 (d_pow a + d_pow b))"

definition fdiv :: "double \<Rightarrow> double \<Rightarrow> double" where
  "fdiv a b =
     (if is_nan a then d_quiet a
      else if is_nan b then d_quiet b
      else
        let s = (d_sign a \<noteq> d_sign b)
        in if (is_inf a \<and> is_inf b) \<or> (is_zero a \<and> is_zero b) then d_default_nan
           else if is_inf a then d_infinity s
           else if is_inf b then d_zero s
           else if is_zero b then d_infinity s
           else d_round s (d_mant a) (d_mant b) (d_pow a - d_pow b))"

definition fabs :: "double \<Rightarrow> double" where
  "fabs a = a AND 0x7FFFFFFFFFFFFFFF"

text \<open>
  The order of the doubles that are not NaN is the order of their patterns read as
  sign and magnitude; the two zeros are equal. Every comparison with a NaN is false.
\<close>

definition d_key :: "double \<Rightarrow> int" where
  "d_key x = (if d_sign x then - uint (fabs x) else uint (fabs x))"

definition fgt :: "double \<Rightarrow> double \<Rightarrow> bool" where
  "fgt a b = (\<not> is_nan a \<and> \<not> is_nan b \<and> d_key b < d_key a)"

definition fge :: "double \<Rightarrow> double \<Rightarrow> bool" where
  "fge a b = (\<not> is_nan a \<and> \<not> is_nan b \<and> d_key b \<le> d_key a)"

definition flt :: "double \<Rightarrow> double \<Rightarrow> bool" where
  "flt a b = (\<not> is_nan a \<and> \<not> is_nan b \<and> d_key a < d_key b)"

text \<open>The integer square root, by one bit a step, and the correctly rounded \<^verbatim>\<open>sqrt\<close>.\<close>

fun isqrt :: "nat \<Rightarrow> nat" where
  "isqrt n =
     (if n < 2 then n
      else let r = 2 * isqrt (n div 4)
           in if (r + 1) * (r + 1) \<le> n then r + 1 else r)"

declare isqrt.simps [simp del]

definition fsqrt :: "double \<Rightarrow> double" where
  "fsqrt a =
     (if is_nan a then d_quiet a
      else if is_zero a then a
      else if d_sign a then d_default_nan
      else if is_inf a then a
      else
        let m = (if even (d_pow a) then d_mant a else 2 * d_mant a);
            e = (if even (d_pow a) then d_pow a else d_pow a - 1);
            n = m * 2 ^ 128;
            r = isqrt n
        in d_round False (2 * r + (if r * r = n then 0 else 1)) 1 (e div 2 - 65))"

section \<open>Global state\<close>

text \<open>
  The configuration structure of \<^verbatim>\<open>simplex_noise.h\<close>. The four enumerations are C
  integers (a configuration file can put any integer there); the fields carry the
  prefix \<open>cfg_\<close>.
\<close>

record simplex_config_t =
  cfg_prng_type :: cint
  cfg_noise_variant :: cint
  cfg_interp_type :: cint
  cfg_precision :: cint
  cfg_seed :: u32
  cfg_enable_simd :: cint
  cfg_enable_caching :: cint
  cfg_enable_profiling :: cint
  cfg_persistence :: double
  cfg_lacunarity :: double
  cfg_octaves :: cint
  cfg_frequency :: double
  cfg_amplitude :: double
  cfg_offset :: double
  cfg_scale :: double
  cfg_config_file :: string
  cfg_output_file :: string
  cfg_verbose_mode :: cint
  cfg_debug_mode :: cint
  cfg_auto_save :: cint
  cfg_validate_inputs :: cint
  cfg_cache_size_mb :: double
  cfg_max_threads :: cint
  cfg_chunk_size :: cint
  cfg_memory_limit_mb :: double

definition SIMPLEX_PRG_LINEAR_CONGRUENTIAL :: cint where
  "SIMPLEX_PRG_LINEAR_CONGRUENTIAL = 0"

definition SIMPLEX_PRG_MERSENNE_TWISTER :: cint where
  "SIMPLEX_PRG_MERSENNE_TWISTER = 1"

definition SIMPLEX_PRG_XORSHIFT :: cint where
  "SIMPLEX_PRG_XORSHIFT = 2"

definition SIMPLEX_PRG_PCG :: cint where
  "SIMPLEX_PRG_PCG = 3"

definition SIMPLEX_NOISE_CLASSIC :: cint where
  "SIMPLEX_NOISE_CLASSIC = 0"

definition SIMPLEX_INTERP_SMOOTHSTEP :: cint where
  "SIMPLEX_INTERP_SMOOTHSTEP = 3"

definition SIMPLEX_PRECISION_DOUBLE :: cint where
  "SIMPLEX_PRECISION_DOUBLE = 1"

record simplex_perf_stats_t =
  ps_generation_time :: double
  ps_memory_used :: u64
  ps_cache_hits :: u64
  ps_cache_misses :: u64
  ps_function_calls :: u64
  ps_average_execution_time :: double

record prng_state_t =
  lcg_state :: u32
  mersenne_state :: "u32 list"
  mersenne_index :: cint
  xorshift_state :: "u64 list"
  pcg_state :: u64
  pcg_inc :: u64

record cache_entry =
  ce_x :: double
  ce_y :: double
  ce_z :: double
  ce_w :: double
  ce_result :: double
  ce_valid :: cint

text \<open>All the file-scope variables of \<^verbatim>\<open>simplex_noise.c\<close>, as one record.\<close>

record engine =
  perm :: "cint list"
  initialized :: cint
  global_config :: simplex_config_t
  perf_stats :: simplex_perf_stats_t
  prng_state :: prng_state_t
  noise_cache :: "cache_entry list"
  cache_enabled :: cint
  cache_hits :: cint
  cache_misses :: cint
  profiling_enabled :: cint
  function_call_count :: u64

definition CACHE_SIZE :: nat where
  "CACHE_SIZE = 1024"

text \<open>The arrays have the sizes their C declarations give them.\<close>

definition wf_engine :: "engine \<Rightarrow> bool" where
  "wf_engine e =
     (length (perm e) = 512 \<and>
      length (mersenne_state (prng_state e)) = 624 \<and>
      length (xorshift_state (prng_state e)) = 4 \<and>
      length (noise_cache e) = CACHE_SIZE)"

section \<open>The generators\<close>

definition lcg_next :: "prng_state_t \<Rightarrow> u32 \<times> prng_state_t" where
  "lcg_next ps =
     (let s = lcg_state ps * 1103515245 + 12345
      in (s, ps\<lparr>lcg_state := s\<rparr>))"

function mersenne_init_loop :: "nat \<Rightarrow> u32 list \<Rightarrow> u32 list" where
  "mersenne_init_loop i st =
     (if i < 624
      then mersenne_init_loop (i + 1)
             (st[i := (1812433253 * (st ! (i - 1) XOR drop_bit 30 (st ! (i - 1))) + of_nat i)
                        AND 0xFFFFFFFF])
      else st)"
  by pat_completeness auto
termination
  by (relation "measure (\<lambda>(i, st). 624 - i)") auto

declare mersenne_init_loop.simps [simp del]

definition mersenne_init :: "u32 \<Rightarrow> prng_state_t \<Rightarrow> prng_state_t" where
  "mersenne_init seed ps =
     ps\<lparr>mersenne_state := mersenne_init_loop 1 ((mersenne_state ps)[0 := seed]),
        mersenne_index := 0\<rparr>"

function mersenne_generate_loop :: "nat \<Rightarrow> u32 list \<Rightarrow> u32 list" where
  "mersenne_generate_loop i st =
     (if i < 624
      then
        let y = (st ! i AND 0x80000000) + (st ! ((i + 1) mod 624) AND 0x7FFFFFFF);
            st1 = st[i := st ! ((i + 397) mod 624) XOR drop_bit 1 y];
            st2 = (if y mod 2 \<noteq> 0 then st1[i := st1 ! i XOR 0x9908B0DF] else st1)
        in mersenne_generate_loop (i + 1) st2
      else st)"
  by pat_completeness auto
termination
  by (relation "measure (\<lambda>(i, st). 624 - i)") auto

declare mersenne_generate_loop.simps [simp del]

definition mersenne_generate :: "prng_state_t \<Rightarrow> prng_state_t" where
  "mersenne_generate ps = ps\<lparr>mersenne_state := mersenne_generate_loop 0 (mersenne_state ps)\<rparr>"

definition mersenne_next :: "prng_state_t \<Rightarrow> u32 \<times> prng_state_t" where
  "mersenne_next ps0 =
     (let ps = (if mersenne_index ps0 = 0 then mersenne_generate ps0 else ps0);
          y0 = mersenne_state ps ! nat (sint (mersenne_index ps));
          y1 = y0 XOR drop_bit 11 y0;
          y2 = y1 XOR (push_bit 7 y1 AND 0x9D2C5680);
          y3 = y2 XOR (push_bit 15 y2 AND 0xEFC60000);
          y4 = y3 XOR drop_bit 18 y3
      in (y4, ps\<lparr>mersenne_index := c_rem (mersenne_index ps + 1) 624\<rparr>))"

definition xorshift_init :: "u64 \<Rightarrow> prng_state_t \<Rightarrow> prng_state_t" where
  "xorshift_init seed ps =
     ps\<lparr>xorshift_state :=
          (xorshift_state ps)
            [0 := seed,
             1 := seed XOR 0x123456789ABCDEF0,
             2 := seed XOR 0xFEDCBA9876543210,
             3 := seed XOR 0x13579BDF2468ACE0]\<rparr>"

definition xorshift_next :: "prng_state_t \<Rightarrow> u64 \<times> prng_state_t" where
  "xorshift_next ps =
     (let xs = xorshift_state ps;
          t = xs ! 0;
          s = xs ! 3;
          xs1 = xs[0 := xs ! 1];
          xs2 = xs1[1 := xs1 ! 2];
          xs3 = xs2[2 := s];
          t1 = t XOR push_bit 11 t;
          t2 = t1 XOR drop_bit 8 t1;
          xs4 = xs3[3 := t2 XOR s XOR drop_bit 19 s]
      in (xs4 ! 3, ps\<lparr>xorshift_state := xs4\<rparr>))"

definition pcg_next :: "prng_state_t \<Rightarrow> u32 \<times> prng_state_t" where
  "pcg_next ps =
     (let oldstate = pcg_state ps;
          ps1 = ps\<lparr>pcg_state := oldstate * 6364136223846793005 + pcg_inc ps\<rparr>;
          xorshifted = (ucast (drop_bit 27 (drop_bit 18 oldstate XOR oldstate)) :: u32);
          rot = (ucast (drop_bit 59 oldstate) :: u32)
      in (drop_bit (unat rot) xorshifted OR push_bit (unat ((- rot) AND 31)) xorshifted, ps1))"

definition pcg_init :: "u64 \<Rightarrow> prng_state_t \<Rightarrow> prng_state_t" where
  "pcg_init seed ps =
     (let ps1 = ps\<lparr>pcg_state := 0, pcg_inc := push_bit 1 seed OR 1\<rparr>;
          ps2 = snd (pcg_next ps1);
          ps3 = ps2\<lparr>pcg_state := pcg_state ps2 + seed\<rparr>
      in snd (pcg_next ps3))"

text \<open>The two switches on \<^verbatim>\<open>global_config.prng_type\<close>; every other selector takes the
  \<^verbatim>\<open>default\<close> branch, the linear congruential generator.\<close>

definition prng_next :: "engine \<Rightarrow> u32 \<times> engine" where
  "prng_next e =
     (let t = cfg_prng_type (global_config e); ps = prng_state e
      in if t = SIMPLEX_PRG_LINEAR_CONGRUENTIAL
           then (case lcg_next ps of (r, ps') \<Rightarrow> (r, e\<lparr>prng_state := ps'\<rparr>))
         else if t = SIMPLEX_PRG_MERSENNE_TWISTER
           then (case mersenne_next ps of (r, ps') \<Rightarrow> (r, e\<lparr>prng_state := ps'\<rparr>))
         else if t = SIMPLEX_PRG_XORSHIFT
           then (case xorshift_next ps of (r, ps') \<Rightarrow> (ucast r, e\<lparr>prng_state := ps'\<rparr>))
         else if t = SIMPLEX_PRG_PCG
           then (case pcg_next ps of (r, ps') \<Rightarrow> (r, e\<lparr>prng_state := ps'\<rparr>))
         else (case lcg_next ps of (r, ps') \<Rightarrow> (r, e\<lparr>prng_state := ps'\<rparr>)))"

definition prng_init :: "u32 \<Rightarrow> engine \<Rightarrow> engine" where
  "prng_init seed e =
     (let t = cfg_prng_type (global_config e); ps = prng_state e
      in if t = SIMPLEX_PRG_LINEAR_CONGRUENTIAL then e\<lparr>prng_state := ps\<lparr>lcg_state := seed\<rparr>\<rparr>
         else if t = SIMPLEX_PRG_MERSENNE_TWISTER then e\<lparr>prng_state := mersenne_init seed ps\<rparr>
         else if t = SIMPLEX_PRG_XORSHIFT then e\<lparr>prng_state := xorshift_init (ucast seed) ps\<rparr>
         else if t = SIMPLEX_PRG_PCG then e\<lparr>prng_state := pcg_init (ucast seed) ps\<rparr>
         else e\<lparr>prng_state := ps\<lparr>lcg_state := seed\<rparr>\<rparr>)"

section \<open>Initialisation\<close>

definition simplex_get_default_config :: simplex_config_t where
  "simplex_get_default_config =
     \<lparr>cfg_prng_type = SIMPLEX_PRG_PCG,
      cfg_noise_variant = SIMPLEX_NOISE_CLASSIC,
      cfg_interp_type = SIMPLEX_INTERP_SMOOTHSTEP,
      cfg_precision = SIMPLEX_PRECISION_DOUBLE,
      cfg_seed = 0,
      cfg_enable_simd = 0,
      cfg_enable_caching = 1,
      cfg_enable_profiling = 0,
      cfg_persistence = d_lit 5 10,
      cfg_lacunarity = d_lit 2 1,
      cfg_octaves = 4,
      cfg_frequency = d_lit 1 1,
      cfg_amplitude = d_lit 1 1,
      cfg_offset = d_lit 0 1,
      cfg_scale = d_lit 1 1,
      cfg_config_file = [],
      cfg_output_file = [],
      cfg_verbose_mode = 0,
      cfg_debug_mode = 0,
      cfg_auto_save = 0,
      cfg_validate_inputs = 1,
      cfg_cache_size_mb = d_lit 16 1,
      cfg_max_threads = 1,
      cfg_chunk_size = 1024,
      cfg_memory_limit_mb = d_lit 256 1\<rparr>"

function perm_identity_loop :: "nat \<Rightarrow> cint list \<Rightarrow> cint list" where
  "perm_identity_loop i p =
     (if i < 256 then perm_identity_loop (i + 1) (p[i := of_nat i]) else p)"
  by pat_completeness auto
termination
  by (relation "measure (\<lambda>(i, p). 256 - i)") auto

declare perm_identity_loop.simps [simp del]

text \<open>The shuffle, \<^verbatim>\<open>for (int i = 255; i > 0; i--)\<close>: the draw is reduced as an unsigned
  32-bit number and the entries \<open>i\<close> and \<open>j\<close> of the table change places.\<close>

fun shuffle_loop :: "nat \<Rightarrow> engine \<Rightarrow> engine" where
  "shuffle_loop i e =
     (if 0 < i
      then
        case prng_next e of (r, e1) \<Rightarrow>
          let j = unat (r mod of_nat (i + 1));
              p = perm e1;
              temp = p ! i;
              p1 = p[i := p ! j];
              p2 = p1[j := temp]
          in shuffle_loop (i - 1) (e1\<lparr>perm := p2\<rparr>)
      else e)"

declare shuffle_loop.simps [simp del]

function perm_duplicate_loop :: "nat \<Rightarrow> cint list \<Rightarrow> cint list" where
  "perm_duplicate_loop i p =
     (if i < 256 then perm_duplicate_loop (i + 1) (p[256 + i := p ! i]) else p)"
  by pat_completeness auto
termination
  by (relation "measure (\<lambda>(i, p). 256 - i)") auto

declare perm_duplicate_loop.simps [simp del]

function cache_clear_loop :: "nat \<Rightarrow> cache_entry list \<Rightarrow> cache_entry list" where
  "cache_clear_loop i c =
     (if i < CACHE_SIZE then cache_clear_loop (i + 1) (c[i := (c ! i)\<lparr>ce_valid := 0\<rparr>]) else c)"
  by pat_completeness auto
termination
  by (relation "measure (\<lambda>(i, c). CACHE_SIZE - i)") auto

declare cache_clear_loop.simps [simp del]

definition perf_stats_zero :: simplex_perf_stats_t where
  "perf_stats_zero =
     \<lparr>ps_generation_time = 0, ps_memory_used = 0, ps_cache_hits = 0, ps_cache_misses = 0,
      ps_function_calls = 0, ps_average_execution_time = 0\<rparr>"

text \<open>
  \<^verbatim>\<open>simplex_noise_init_advanced\<close>. The pointer argument is \<open>None\<close> for \<^verbatim>\<open>NULL\<close>;
  \<open>now\<close> is what \<^verbatim>\<open>time(NULL)\<close> returns if it is called. The result is the returned
  status and the new state.
\<close>

definition simplex_noise_init_advanced ::
  "simplex_config_t option \<Rightarrow> u64 \<Rightarrow> engine \<Rightarrow> cint \<times> engine" where
  "simplex_noise_init_advanced config now e =
     (case config of
        None \<Rightarrow> (- 1, e)
      | Some c \<Rightarrow>
          let e1 = e\<lparr>global_config := c\<rparr>;
              e2 = (if cfg_seed (global_config e1) = 0
                    then e1\<lparr>global_config := (global_config e1)\<lparr>cfg_seed := ucast now\<rparr>\<rparr>
                    else e1);
              e3 = prng_init (cfg_seed (global_config e2)) e2;
              e4 = e3\<lparr>perm := perm_identity_loop 0 (perm e3)\<rparr>;
              e5 = shuffle_loop 255 e4;
              e6 = e5\<lparr>perm := perm_duplicate_loop 0 (perm e5)\<rparr>;
              e7 = e6\<lparr>perf_stats := perf_stats_zero, function_call_count := 0\<rparr>;
              e8 = (if cfg_enable_caching (global_config e7) \<noteq> 0
                    then e7\<lparr>cache_enabled := 1,
                            noise_cache := cache_clear_loop 0 (noise_cache e7)\<rparr>
                    else e7);
              e9 = e8\<lparr>profiling_enabled := cfg_enable_profiling (global_config e8),
                      initialized := 1\<rparr>
          in (0, e9))"

text \<open>\<^verbatim>\<open>simplex_noise_init\<close> returns nothing; the model returns the new state.\<close>

definition simplex_noise_init :: "u32 \<Rightarrow> u64 \<Rightarrow> engine \<Rightarrow> engine" where
  "simplex_noise_init seed now e =
     (let config = simplex_get_default_config\<lparr>cfg_seed := seed\<rparr>
      in snd (simplex_noise_init_advanced (Some config) now e))"

definition simplex_set_caching :: "cint \<Rightarrow> engine \<Rightarrow> cint \<times> engine" where
  "simplex_set_caching enable e =
     (0, e\<lparr>global_config := (global_config e)\<lparr>cfg_enable_caching := (if enable \<noteq> 0 then 1 else 0)\<rparr>,
           cache_enabled := (if enable \<noteq> 0 then 1 else 0)\<rparr>)"

section \<open>The cache\<close>

text \<open>\<^verbatim>\<open>cache_lookup\<close> and \<^verbatim>\<open>cache_store\<close> are static functions that no other function of
  the file calls.\<close>

definition cache_hash :: "double \<Rightarrow> double \<Rightarrow> double \<Rightarrow> double \<Rightarrow> cint" where
  "cache_hash x y z w =
     (let hash = c_rem (d_to_int (fmul x (d_of_int 1000)) XOR d_to_int (fmul y (d_of_int 1000)) XOR
                        d_to_int (fmul z (d_of_int 1000)) XOR d_to_int (fmul w (d_of_int 1000)))
                   (of_nat CACHE_SIZE)
      in if c_lt hash 0 then - hash else hash)"

definition cache_lookup :: "double \<Rightarrow> double \<Rightarrow> double \<Rightarrow> double \<Rightarrow> engine \<Rightarrow> double \<times> engine" where
  "cache_lookup x y z w e =
     (if cache_enabled e = 0 then (d_lit 0 1, e)
      else
        let c = noise_cache e ! nat (sint (cache_hash x y z w))
        in if ce_valid c \<noteq> 0 \<and> flt (fabs (fsub (ce_x c) x)) (d_lit 1 1000000000) \<and>
              flt (fabs (fsub (ce_y c) y)) (d_lit 1 1000000000) \<and>
              flt (fabs (fsub (ce_z c) z)) (d_lit 1 1000000000) \<and>
              flt (fabs (fsub (ce_w c) w)) (d_lit 1 1000000000)
           then (ce_result c, e\<lparr>cache_hits := cache_hits e + 1\<rparr>)
           else (d_lit 0 1, e\<lparr>cache_misses := cache_misses e + 1\<rparr>))"

definition cache_store :: "double \<Rightarrow> double \<Rightarrow> double \<Rightarrow> double \<Rightarrow> double \<Rightarrow> engine \<Rightarrow> engine" where
  "cache_store x y z w result e =
     (if cache_enabled e = 0 then e
      else e\<lparr>noise_cache := (noise_cache e)
                 [nat (sint (cache_hash x y z w)) :=
                    \<lparr>ce_x = x, ce_y = y, ce_z = z, ce_w = w, ce_result = result, ce_valid = 1\<rparr>]\<rparr>)"

section \<open>The kernels\<close>

definition grad2 :: "double list list" where
  "grad2 = map (map d_of_int)
     [[1, 1], [- 1, 1], [1, - 1], [- 1, - 1], [1, 0], [- 1, 0], [0, 1], [0, - 1]]"

definition grad3 :: "double list list" where
  "grad3 = map (map d_of_int)
     [[1, 1, 0], [- 1, 1, 0], [1, - 1, 0], [- 1, - 1, 0],
      [1, 0, 1], [- 1, 0, 1], [1, 0, - 1], [- 1, 0, - 1],
      [0, 1, 1], [0, - 1, 1], [0, 1, - 1], [0, - 1, - 1]]"

definition grad4 :: "double list list" where
  "grad4 = map (map d_of_int)
     [[0, 1, 1, 1], [0, 1, 1, - 1], [0, 1, - 1, 1], [0, 1, - 1, - 1],
      [0, - 1, 1, 1], [0, - 1, 1, - 1], [0, - 1, - 1, 1], [0, - 1, - 1, - 1],
      [1, 0, 1, 1], [1, 0, 1, - 1], [1, 0, - 1, 1], [1, 0, - 1, - 1],
      [- 1, 0, 1, 1], [- 1, 0, 1, - 1], [- 1, 0, - 1, 1], [- 1, 0, - 1, - 1],
      [1, 1, 0, 1], [1, 1, 0, - 1], [1, - 1, 0, 1], [1, - 1, 0, - 1],
      [- 1, 1, 0, 1], [- 1, 1, 0, - 1], [- 1, - 1, 0, 1], [- 1, - 1, 0, - 1],
      [1, 1, 1, 0], [1, 1, - 1, 0], [1, - 1, 1, 0], [1, - 1, - 1, 0],
      [- 1, 1, 1, 0], [- 1, 1, - 1, 0], [- 1, - 1, 1, 0], [- 1, - 1, - 1, 0]]"

text \<open>
  The table reads whose index is computed from data. An index outside the array is
  undefined in C; the model reads 0 (a row of zeros) there.
\<close>

definition perm_at :: "cint list \<Rightarrow> cint \<Rightarrow> cint" where
  "perm_at p i = (if 0 \<le> sint i \<and> nat (sint i) < length p then p ! nat (sint i) else 0)"

definition grad_at :: "double list list \<Rightarrow> cint \<Rightarrow> double list" where
  "grad_at g i =
     (if 0 \<le> sint i \<and> nat (sint i) < length g then g ! nat (sint i) else replicate 4 0)"

definition dot2d :: "double list \<Rightarrow> double \<Rightarrow> double \<Rightarrow> double" where
  "dot2d grad x y = fadd (fmul (grad ! 0) x) (fmul (grad ! 1) y)"

definition dot3d :: "double list \<Rightarrow> double \<Rightarrow> double \<Rightarrow> double \<Rightarrow> double" where
  "dot3d grad x y z = fadd (fadd (fmul (grad ! 0) x) (fmul (grad ! 1) y)) (fmul (grad ! 2) z)"

definition dot4d :: "double list \<Rightarrow> double \<Rightarrow> double \<Rightarrow> double \<Rightarrow> double \<Rightarrow> double" where
  "dot4d grad x y z w =
     fadd (fadd (fadd (fmul (grad ! 0) x) (fmul (grad ! 1) y)) (fmul (grad ! 2) z))
          (fmul (grad ! 3) w)"

definition fast_floor :: "double \<Rightarrow> cint" where
  "fast_floor x = (if fgt x (d_of_int 0) then d_to_int x else d_to_int x - 1)"

text \<open>The test \<^verbatim>\<open>if (!initialized) simplex_noise_init(0);\<close> that opens every kernel.\<close>

definition lazy_init :: "u64 \<Rightarrow> engine \<Rightarrow> engine" where
  "lazy_init now e = (if initialized e = 0 then simplex_noise_init 0 now e else e)"

text \<open>
  Each kernel is its body, a function of the permutation table and the point, run in
  the state the opening test leaves. A reassigned C variable is a rebound name.
\<close>

definition noise_1d_body :: "cint list \<Rightarrow> double \<Rightarrow> double" where
  "noise_1d_body p x =
     (let i0 = fast_floor x;
          i1 = i0 + 1;
          x0 = fsub x (d_of_int i0);
          x1 = fsub x0 (d_lit 1 1);
          t0 = fsub (d_lit 1 1) (fmul x0 x0);
          t1 = fsub (d_lit 1 1) (fmul x1 x1);
          t0 = fmul t0 t0;
          t1 = fmul t1 t1;
          n0 = fmul (fmul t0 t0) (dot2d (grad_at grad2 (perm_at p (i0 AND 0xff) AND 7)) x0 (d_of_int 0));
          n1 = fmul (fmul t1 t1) (dot2d (grad_at grad2 (perm_at p (i1 AND 0xff) AND 7)) x1 (d_of_int 0))
      in fmul (d_lit 70 1) (fadd n0 n1))"

definition simplex_noise_1d :: "u64 \<Rightarrow> double \<Rightarrow> engine \<Rightarrow> double \<times> engine" where
  "simplex_noise_1d now x e0 = (let e = lazy_init now e0 in (noise_1d_body (perm e) x, e))"

definition noise_2d_body :: "cint list \<Rightarrow> double \<Rightarrow> double \<Rightarrow> double" where
  "noise_2d_body p x y =
     (let F2 = fmul (d_lit 5 10) (fsub (fsqrt (d_lit 3 1)) (d_lit 1 1));
          G2 = fdiv (fsub (d_lit 3 1) (fsqrt (d_lit 3 1))) (d_lit 6 1);
          s = fmul (fadd x y) F2;
          i = fast_floor (fadd x s);
          j = fast_floor (fadd y s);
          t = fmul (d_of_int (i + j)) G2;
          x0 = fsub x (fsub (d_of_int i) t);
          y0 = fsub y (fsub (d_of_int j) t);
          i1 = (if fgt x0 y0 then 1 else 0 :: cint);
          j1 = (if fgt x0 y0 then 0 else 1 :: cint);
          x1 = fadd (fsub x0 (d_of_int i1)) G2;
          y1 = fadd (fsub y0 (d_of_int j1)) G2;
          x2 = fadd (fsub x0 (d_lit 1 1)) (fmul (d_lit 2 1) G2);
          y2 = fadd (fsub y0 (d_lit 1 1)) (fmul (d_lit 2 1) G2);
          ii = i AND 0xff;
          jj = j AND 0xff;
          gi0 = c_rem (perm_at p (ii + perm_at p jj)) 8;
          gi1 = c_rem (perm_at p (ii + i1 + perm_at p (jj + j1))) 8;
          gi2 = c_rem (perm_at p (ii + 1 + perm_at p (jj + 1))) 8;
          t0 = fsub (fsub (d_lit 5 10) (fmul x0 x0)) (fmul y0 y0);
          n0 = (if fge t0 (d_of_int 0)
                then let t0 = fmul t0 t0 in fmul (fmul t0 t0) (dot2d (grad_at grad2 gi0) x0 y0)
                else d_lit 0 1);
          t1 = fsub (fsub (d_lit 5 10) (fmul x1 x1)) (fmul y1 y1);
          n1 = (if fge t1 (d_of_int 0)
                then let t1 = fmul t1 t1 in fmul (fmul t1 t1) (dot2d (grad_at grad2 gi1) x1 y1)
                else d_lit 0 1);
          t2 = fsub (fsub (d_lit 5 10) (fmul x2 x2)) (fmul y2 y2);
          n2 = (if fge t2 (d_of_int 0)
                then let t2 = fmul t2 t2 in fmul (fmul t2 t2) (dot2d (grad_at grad2 gi2) x2 y2)
                else d_lit 0 1)
      in fmul (d_lit 70 1) (fadd (fadd n0 n1) n2))"

definition simplex_noise_2d :: "u64 \<Rightarrow> double \<Rightarrow> double \<Rightarrow> engine \<Rightarrow> double \<times> engine" where
  "simplex_noise_2d now x y e0 = (let e = lazy_init now e0 in (noise_2d_body (perm e) x y, e))"

text \<open>The six-way choice of the second and third corner of the tetrahedron.\<close>

definition corners_3d :: "double \<Rightarrow> double \<Rightarrow> double \<Rightarrow> (cint \<times> cint \<times> cint) \<times> (cint \<times> cint \<times> cint)" where
  "corners_3d x0 y0 z0 =
     (if fge x0 y0
      then (if fge y0 z0 then ((1, 0, 0), (1, 1, 0))
            else if fge x0 z0 then ((1, 0, 0), (1, 0, 1))
            else ((0, 0, 1), (1, 0, 1)))
      else (if flt y0 z0 then ((0, 0, 1), (0, 1, 1))
            else if flt x0 z0 then ((0, 1, 0), (0, 1, 1))
            else ((0, 1, 0), (1, 1, 0))))"

definition noise_3d_body :: "cint list \<Rightarrow> double \<Rightarrow> double \<Rightarrow> double \<Rightarrow> double" where
  "noise_3d_body p x y z =
     (let F3 = fdiv (d_lit 1 1) (d_lit 3 1);
          G3 = fdiv (d_lit 1 1) (d_lit 6 1);
          s = fmul (fadd (fadd x y) z) F3;
          i = fast_floor (fadd x s);
          j = fast_floor (fadd y s);
          k = fast_floor (fadd z s);
          t = fmul (d_of_int (i + j + k)) G3;
          x0 = fsub x (fsub (d_of_int i) t);
          y0 = fsub y (fsub (d_of_int j) t);
          z0 = fsub z (fsub (d_of_int k) t)
      in case corners_3d x0 y0 z0 of ((i1, j1, k1), (i2, j2, k2)) \<Rightarrow>
      let x1 = fadd (fsub x0 (d_of_int i1)) G3;
          y1 = fadd (fsub y0 (d_of_int j1)) G3;
          z1 = fadd (fsub z0 (d_of_int k1)) G3;
          x2 = fadd (fsub x0 (d_of_int i2)) (fmul (d_lit 2 1) G3);
          y2 = fadd (fsub y0 (d_of_int j2)) (fmul (d_lit 2 1) G3);
          z2 = fadd (fsub z0 (d_of_int k2)) (fmul (d_lit 2 1) G3);
          x3 = fadd (fsub x0 (d_lit 1 1)) (fmul (d_lit 3 1) G3);
          y3 = fadd (fsub y0 (d_lit 1 1)) (fmul (d_lit 3 1) G3);
          z3 = fadd (fsub z0 (d_lit 1 1)) (fmul (d_lit 3 1) G3);
          ii = i AND 0xff;
          jj = j AND 0xff;
          kk = k AND 0xff;
          gi0 = c_rem (perm_at p (ii + perm_at p (jj + perm_at p kk))) 12;
          gi1 = c_rem (perm_at p (ii + i1 + perm_at p (jj + j1 + perm_at p (kk + k1)))) 12;
          gi2 = c_rem (perm_at p (ii + i2 + perm_at p (jj + j2 + perm_at p (kk + k2)))) 12;
          gi3 = c_rem (perm_at p (ii + 1 + perm_at p (jj + 1 + perm_at p (kk + 1)))) 12;
          t0 = fsub (fsub (fsub (d_lit 6 10) (fmul x0 x0)) (fmul y0 y0)) (fmul z0 z0);
          n0 = (if fge t0 (d_of_int 0)
                then let t0 = fmul t0 t0 in fmul (fmul t0 t0) (dot3d (grad_at grad3 gi0) x0 y0 z0)
                else d_lit 0 1);
          t1 = fsub (fsub (fsub (d_lit 6 10) (fmul x1 x1)) (fmul y1 y1)) (fmul z1 z1);
          n1 = (if fge t1 (d_of_int 0)
                then let t1 = fmul t1 t1 in fmul (fmul t1 t1) (dot3d (grad_at grad3 gi1) x1 y1 z1)
                else d_lit 0 1);
          t2 = fsub (fsub (fsub (d_lit 6 10) (fmul x2 x2)) (fmul y2 y2)) (fmul z2 z2);
          n2 = (if fge t2 (d_of_int 0)
                then let t2 = fmul t2 t2 in fmul (fmul t2 t2) (dot3d (grad_at grad3 gi2) x2 y2 z2)
                else d_lit 0 1);
          t3 = fsub (fsub (fsub (d_lit 6 10) (fmul x3 x3)) (fmul y3 y3)) (fmul z3 z3);
          n3 = (if fge t3 (d_of_int 0)
                then let t3 = fmul t3 t3 in fmul (fmul t3 t3) (dot3d (grad_at grad3 gi3) x3 y3 z3)
                else d_lit 0 1)
      in fmul (d_lit 32 1) (fadd (fadd (fadd n0 n1) n2) n3))"

definition simplex_noise_3d :: "u64 \<Rightarrow> double \<Rightarrow> double \<Rightarrow> double \<Rightarrow> engine \<Rightarrow> double \<times> engine" where
  "simplex_noise_3d now x y z e0 =
     (let e = lazy_init now e0 in (noise_3d_body (perm e) x y z, e))"

definition simplex :: "cint list list" where
  "simplex =
     [[0, 1, 2, 3], [0, 1, 3, 2], [0, 0, 1, 1], [0, 2, 3, 1], [0, 0, 1, 1], [0, 0, 1, 1],
      [0, 0, 1, 1], [1, 2, 3, 0], [0, 2, 1, 3], [0, 0, 1, 1], [0, 0, 1, 1], [0, 0, 1, 1],
      [1, 3, 0, 2], [0, 0, 1, 1], [0, 0, 1, 1], [0, 0, 1, 1], [0, 0, 1, 1], [0, 0, 1, 1],
      [0, 0, 1, 1], [0, 0, 1, 1], [0, 0, 1, 1], [0, 0, 1, 1], [0, 0, 1, 1], [0, 0, 1, 1],
      [1, 2, 0, 3], [0, 0, 1, 1], [0, 0, 1, 1], [0, 0, 1, 1], [1, 3, 2, 0], [0, 0, 1, 1],
      [0, 0, 1, 1], [0, 0, 1, 1], [0, 0, 1, 1], [0, 0, 1, 1], [0, 0, 1, 1], [0, 0, 1, 1],
      [0, 0, 1, 1], [0, 0, 1, 1], [0, 0, 1, 1], [0, 0, 1, 1], [2, 3, 0, 1], [0, 0, 1, 1],
      [0, 0, 1, 1], [0, 0, 1, 1], [2, 3, 1, 0], [0, 0, 1, 1], [0, 0, 1, 1], [0, 0, 1, 1],
      [0, 0, 1, 1], [0, 0, 1, 1], [0, 0, 1, 1], [0, 0, 1, 1], [0, 0, 1, 1], [0, 0, 1, 1],
      [0, 0, 1, 1], [0, 0, 1, 1], [2, 0, 3, 1], [0, 0, 1, 1], [0, 0, 1, 1], [0, 0, 1, 1],
      [3, 0, 1, 2], [3, 1, 0, 2], [0, 0, 1, 1], [0, 0, 1, 1]]"

text \<open>\<^verbatim>\<open>simplex[c][k] >= n ? 1 : 0\<close>; \<open>c\<close> is a sum of six flags, so below 64.\<close>

definition simplex_ge :: "cint \<Rightarrow> nat \<Rightarrow> cint \<Rightarrow> cint" where
  "simplex_ge c k n = (if c_le n (simplex ! unat c ! k) then 1 else 0)"

definition noise_4d_body :: "cint list \<Rightarrow> double \<Rightarrow> double \<Rightarrow> double \<Rightarrow> double \<Rightarrow> double" where
  "noise_4d_body p x y z w =
     (let F4 = fdiv (fsub (fsqrt (d_lit 5 1)) (d_lit 1 1)) (d_lit 4 1);
          G4 = fdiv (fsub (d_lit 5 1) (fsqrt (d_lit 5 1))) (d_lit 20 1);
          s = fmul (fadd (fadd (fadd x y) z) w) F4;
          i = fast_floor (fadd x s);
          j = fast_floor (fadd y s);
          k = fast_floor (fadd z s);
          l = fast_floor (fadd w s);
          t = fmul (d_of_int (i + j + k + l)) G4;
          x0 = fsub x (fsub (d_of_int i) t);
          y0 = fsub y (fsub (d_of_int j) t);
          z0 = fsub z (fsub (d_of_int k) t);
          w0 = fsub w (fsub (d_of_int l) t);
          c1 = (if fgt x0 y0 then 32 else 0 :: cint);
          c2 = (if fgt x0 z0 then 16 else 0 :: cint);
          c3 = (if fgt y0 z0 then 8 else 0 :: cint);
          c4 = (if fgt x0 w0 then 4 else 0 :: cint);
          c5 = (if fgt y0 w0 then 2 else 0 :: cint);
          c6 = (if fgt z0 w0 then 1 else 0 :: cint);
          c = c1 + c2 + c3 + c4 + c5 + c6;
          i1 = simplex_ge c 0 3; j1 = simplex_ge c 1 3; k1 = simplex_ge c 2 3; l1 = simplex_ge c 3 3;
          i2 = simplex_ge c 0 2; j2 = simplex_ge c 1 2; k2 = simplex_ge c 2 2; l2 = simplex_ge c 3 2;
          i3 = simplex_ge c 0 1; j3 = simplex_ge c 1 1; k3 = simplex_ge c 2 1; l3 = simplex_ge c 3 1;
          x1 = fadd (fsub x0 (d_of_int i1)) G4;
          y1 = fadd (fsub y0 (d_of_int j1)) G4;
          z1 = fadd (fsub z0 (d_of_int k1)) G4;
          w1 = fadd (fsub w0 (d_of_int l1)) G4;
          x2 = fadd (fsub x0 (d_of_int i2)) (fmul (d_lit 2 1) G4);
          y2 = fadd (fsub y0 (d_of_int j2)) (fmul (d_lit 2 1) G4);
          z2 = fadd (fsub z0 (d_of_int k2)) (fmul (d_lit 2 1) G4);
          w2 = fadd (fsub w0 (d_of_int l2)) (fmul (d_lit 2 1) G4);
          x3 = fadd (fsub x0 (d_of_int i3)) (fmul (d_lit 3 1) G4);
          y3 = fadd (fsub y0 (d_of_int j3)) (fmul (d_lit 3 1) G4);
          z3 = fadd (fsub z0 (d_of_int k3)) (fmul (d_lit 3 1) G4);
          w3 = fadd (fsub w0 (d_of_int l3)) (fmul (d_lit 3 1) G4);
          x4 = fadd (fsub x0 (d_lit 1 1)) (fmul (d_lit 4 1) G4);
          y4 = fadd (fsub y0 (d_lit 1 1)) (fmul (d_lit 4 1) G4);
          z4 = fadd (fsub z0 (d_lit 1 1)) (fmul (d_lit 4 1) G4);
          w4 = fadd (fsub w0 (d_lit 1 1)) (fmul (d_lit 4 1) G4);
          ii = i AND 0xff;
          jj = j AND 0xff;
          kk = k AND 0xff;
          ll = l AND 0xff;
          gi0 = c_rem (perm_at p (ii + perm_at p (jj + perm_at p (kk + perm_at p ll)))) 32;
          gi1 = c_rem (perm_at p (ii + i1 + perm_at p (jj + j1 + perm_at p (kk + k1 + perm_at p (ll + l1))))) 32;
          gi2 = c_rem (perm_at p (ii + i2 + perm_at p (jj + j2 + perm_at p (kk + k2 + perm_at p (ll + l2))))) 32;
          gi3 = c_rem (perm_at p (ii + i3 + perm_at p (jj + j3 + perm_at p (kk + k3 + perm_at p (ll + l3))))) 32;
          gi4 = c_rem (perm_at p (ii + 1 + perm_at p (jj + 1 + perm_at p (kk + 1 + perm_at p (ll + 1))))) 32;
          t0 = fsub (fsub (fsub (fsub (d_lit 6 10) (fmul x0 x0)) (fmul y0 y0)) (fmul z0 z0)) (fmul w0 w0);
          n0 = (if fge t0 (d_of_int 0)
                then let t0 = fmul t0 t0 in fmul (fmul t0 t0) (dot4d (grad_at grad4 gi0) x0 y0 z0 w0)
                else d_lit 0 1);
          t1 = fsub (fsub (fsub (fsub (d_lit 6 10) (fmul x1 x1)) (fmul y1 y1)) (fmul z1 z1)) (fmul w1 w1);
          n1 = (if fge t1 (d_of_int 0)
                then let t1 = fmul t1 t1 in fmul (fmul t1 t1) (dot4d (grad_at grad4 gi1) x1 y1 z1 w1)
                else d_lit 0 1);
          t2 = fsub (fsub (fsub (fsub (d_lit 6 10) (fmul x2 x2)) (fmul y2 y2)) (fmul z2 z2)) (fmul w2 w2);
          n2 = (if fge t2 (d_of_int 0)
                then let t2 = fmul t2 t2 in fmul (fmul t2 t2) (dot4d (grad_at grad4 gi2) x2 y2 z2 w2)
                else d_lit 0 1);
          t3 = fsub (fsub (fsub (fsub (d_lit 6 10) (fmul x3 x3)) (fmul y3 y3)) (fmul z3 z3)) (fmul w3 w3);
          n3 = (if fge t3 (d_of_int 0)
                then let t3 = fmul t3 t3 in fmul (fmul t3 t3) (dot4d (grad_at grad4 gi3) x3 y3 z3 w3)
                else d_lit 0 1);
          t4 = fsub (fsub (fsub (fsub (d_lit 6 10) (fmul x4 x4)) (fmul y4 y4)) (fmul z4 z4)) (fmul w4 w4);
          n4 = (if fge t4 (d_of_int 0)
                then let t4 = fmul t4 t4 in fmul (fmul t4 t4) (dot4d (grad_at grad4 gi4) x4 y4 z4 w4)
                else d_lit 0 1)
      in fmul (d_lit 27 1) (fadd (fadd (fadd (fadd n0 n1) n2) n3) n4))"

definition simplex_noise_4d ::
  "u64 \<Rightarrow> double \<Rightarrow> double \<Rightarrow> double \<Rightarrow> double \<Rightarrow> engine \<Rightarrow> double \<times> engine" where
  "simplex_noise_4d now x y z w e0 =
     (let e = lazy_init now e0 in (noise_4d_body (perm e) x y z w, e))"

section \<open>The variants and the fractal sums\<close>

text \<open>
  Every function below calls kernels, and a kernel may initialise the state, so each
  takes the state and returns it with its result. The loops count in \<^verbatim>\<open>int\<close>; the
  local variables a loop changes travel as a tuple.
\<close>

definition simplex_ridged_1d :: "u64 \<Rightarrow> double \<Rightarrow> engine \<Rightarrow> double \<times> engine" where
  "simplex_ridged_1d now x e =
     (case simplex_noise_1d now x e of (noise, e1) \<Rightarrow> (fsub (d_lit 1 1) (fabs noise), e1))"

definition simplex_ridged_2d :: "u64 \<Rightarrow> double \<Rightarrow> double \<Rightarrow> engine \<Rightarrow> double \<times> engine" where
  "simplex_ridged_2d now x y e =
     (case simplex_noise_2d now x y e of (noise, e1) \<Rightarrow> (fsub (d_lit 1 1) (fabs noise), e1))"

definition simplex_ridged_3d :: "u64 \<Rightarrow> double \<Rightarrow> double \<Rightarrow> double \<Rightarrow> engine \<Rightarrow> double \<times> engine" where
  "simplex_ridged_3d now x y z e =
     (case simplex_noise_3d now x y z e of (noise, e1) \<Rightarrow> (fsub (d_lit 1 1) (fabs noise), e1))"

definition simplex_billowy_1d :: "u64 \<Rightarrow> double \<Rightarrow> engine \<Rightarrow> double \<times> engine" where
  "simplex_billowy_1d now x e =
     (case simplex_noise_1d now x e of (noise, e1) \<Rightarrow> (fabs noise, e1))"

definition simplex_billowy_2d :: "u64 \<Rightarrow> double \<Rightarrow> double \<Rightarrow> engine \<Rightarrow> double \<times> engine" where
  "simplex_billowy_2d now x y e =
     (case simplex_noise_2d now x y e of (noise, e1) \<Rightarrow> (fabs noise, e1))"

definition simplex_billowy_3d :: "u64 \<Rightarrow> double \<Rightarrow> double \<Rightarrow> double \<Rightarrow> engine \<Rightarrow> double \<times> engine" where
  "simplex_billowy_3d now x y z e =
     (case simplex_noise_3d now x y z e of (noise, e1) \<Rightarrow> (fabs noise, e1))"

text \<open>A counter below a bound of its own type can be incremented without overflow, which
  is why the counting loops end.\<close>

lemma c_lt_succ: "c_lt i n \<Longrightarrow> sint (i + 1) = sint i + 1"
proof -
  assume a: "c_lt i n"
  have "sint n < 2 ^ 31" using sint_lt [of n] by simp
  moreover have "- (2 ^ 31) \<le> sint i" using sint_ge [of i] by simp
  ultimately have "- (2 ^ 31) \<le> sint i + 1" "sint i + 1 < 2 ^ 31"
    using a by (simp_all add: c_lt_def)
  then show ?thesis
    by (simp add: sint_word_ariths signed_take_bit_int_eq_self)
qed

lemma c_lt_D: "c_lt i n \<Longrightarrow> sint i < sint n"
  by (simp add: c_lt_def)

lemma c_lt_step: "c_lt i n \<Longrightarrow> sint i < sint (i + 1)"
  using c_lt_succ [of i n] by simp

function simplex_fbm_2d_loop ::
  "u64 \<Rightarrow> double \<Rightarrow> double \<Rightarrow> cint \<Rightarrow> double \<Rightarrow> double \<Rightarrow> cint \<Rightarrow>
   double \<times> double \<times> double \<times> double \<Rightarrow> engine \<Rightarrow>
   (double \<times> double \<times> double \<times> double) \<times> engine" where
  "simplex_fbm_2d_loop now x y octaves persistence lacunarity i (value, amplitude, frequency, maxValue) e =
     (if c_lt i octaves
      then
        case simplex_noise_2d now (fmul x frequency) (fmul y frequency) e of (noise, e1) \<Rightarrow>
          simplex_fbm_2d_loop now x y octaves persistence lacunarity (i + 1)
            (fadd value (fmul noise amplitude),
             fmul amplitude persistence,
             fmul frequency lacunarity,
             fadd maxValue amplitude) e1
      else ((value, amplitude, frequency, maxValue), e))"
  by pat_completeness auto
termination
by (relation "measure (\<lambda>(now, x, y, octaves, persistence, lacunarity, i, st, e).
                            nat (sint octaves - sint i))") (auto intro: c_lt_D c_lt_step)

declare simplex_fbm_2d_loop.simps [simp del]

definition simplex_fbm_2d ::
  "u64 \<Rightarrow> double \<Rightarrow> double \<Rightarrow> cint \<Rightarrow> double \<Rightarrow> double \<Rightarrow> engine \<Rightarrow> double \<times> engine" where
  "simplex_fbm_2d now x y octaves persistence lacunarity e =
     (case simplex_fbm_2d_loop now x y octaves persistence lacunarity 0
             (d_lit 0 1, d_lit 1 1, d_lit 1 1, d_lit 0 1) e of
        ((value, amplitude, frequency, maxValue), e1) \<Rightarrow> (fdiv value maxValue, e1))"

function simplex_fbm_3d_loop ::
  "u64 \<Rightarrow> double \<Rightarrow> double \<Rightarrow> double \<Rightarrow> cint \<Rightarrow> double \<Rightarrow> double \<Rightarrow> cint \<Rightarrow>
   double \<times> double \<times> double \<times> double \<Rightarrow> engine \<Rightarrow>
   (double \<times> double \<times> double \<times> double) \<times> engine" where
  "simplex_fbm_3d_loop now x y z octaves persistence lacunarity i (value, amplitude, frequency, maxValue) e =
     (if c_lt i octaves
      then
        case simplex_noise_3d now (fmul x frequency) (fmul y frequency) (fmul z frequency) e of (noise, e1) \<Rightarrow>
          simplex_fbm_3d_loop now x y z octaves persistence lacunarity (i + 1)
            (fadd value (fmul noise amplitude),
             fmul amplitude persistence,
             fmul frequency lacunarity,
             fadd maxValue amplitude) e1
      else ((value, amplitude, frequency, maxValue), e))"
  by pat_completeness auto
termination
by (relation "measure (\<lambda>(now, x, y, z, octaves, persistence, lacunarity, i, st, e).
                            nat (sint octaves - sint i))") (auto intro: c_lt_D c_lt_step)

declare simplex_fbm_3d_loop.simps [simp del]

definition simplex_fbm_3d ::
  "u64 \<Rightarrow> double \<Rightarrow> double \<Rightarrow> double \<Rightarrow> cint \<Rightarrow> double \<Rightarrow> double \<Rightarrow> engine \<Rightarrow> double \<times> engine" where
  "simplex_fbm_3d now x y z octaves persistence lacunarity e =
     (case simplex_fbm_3d_loop now x y z octaves persistence lacunarity 0
             (d_lit 0 1, d_lit 1 1, d_lit 1 1, d_lit 0 1) e of
        ((value, amplitude, frequency, maxValue), e1) \<Rightarrow> (fdiv value maxValue, e1))"

function simplex_hybrid_multifractal_2d_loop ::
  "u64 \<Rightarrow> double \<Rightarrow> double \<Rightarrow> cint \<Rightarrow> double \<Rightarrow> double \<Rightarrow> double \<Rightarrow> cint \<Rightarrow>
   double \<times> double \<times> double \<Rightarrow> engine \<Rightarrow> (double \<times> double \<times> double) \<times> engine" where
  "simplex_hybrid_multifractal_2d_loop now x y octaves persistence lacunarity offset i (value, amplitude, frequency) e =
     (if c_lt i octaves
      then
        case simplex_noise_2d now (fmul x frequency) (fmul y frequency) e of (noise, e1) \<Rightarrow>
          simplex_hybrid_multifractal_2d_loop now x y octaves persistence lacunarity offset (i + 1)
            (fmul value (fmul (fadd offset (fabs noise)) amplitude),
             fmul amplitude persistence,
             fmul frequency lacunarity) e1
      else ((value, amplitude, frequency), e))"
  by pat_completeness auto
termination
by (relation "measure (\<lambda>(now, x, y, octaves, persistence, lacunarity, offset, i, st, e).
                            nat (sint octaves - sint i))") (auto intro: c_lt_D c_lt_step)

declare simplex_hybrid_multifractal_2d_loop.simps [simp del]

definition simplex_hybrid_multifractal_2d ::
  "u64 \<Rightarrow> double \<Rightarrow> double \<Rightarrow> cint \<Rightarrow> double \<Rightarrow> double \<Rightarrow> double \<Rightarrow> engine \<Rightarrow> double \<times> engine" where
  "simplex_hybrid_multifractal_2d now x y octaves persistence lacunarity offset e =
     (case simplex_hybrid_multifractal_2d_loop now x y octaves persistence lacunarity offset 0
             (d_lit 1 1, d_lit 1 1, d_lit 1 1) e of
        ((value, amplitude, frequency), e1) \<Rightarrow> (value, e1))"

definition simplex_domain_warp_2d :: "u64 \<Rightarrow> double \<Rightarrow> double \<Rightarrow> double \<Rightarrow> engine \<Rightarrow> double \<times> engine" where
  "simplex_domain_warp_2d now x y warp_strength e =
     (case simplex_noise_2d now x y e of (n1, e1) \<Rightarrow>
        let warp_x = fadd x (fmul n1 warp_strength)
        in case simplex_noise_2d now (fadd x (d_of_int 100)) (fadd y (d_of_int 100)) e1 of (n2, e2) \<Rightarrow>
          let warp_y = fadd y (fmul n2 warp_strength)
          in simplex_noise_2d now warp_x warp_y e2)"

function simplex_fractal_2d_loop ::
  "u64 \<Rightarrow> double \<Rightarrow> double \<Rightarrow> cint \<Rightarrow> double \<Rightarrow> double \<Rightarrow> cint \<Rightarrow>
   double \<times> double \<times> double \<times> double \<Rightarrow> engine \<Rightarrow>
   (double \<times> double \<times> double \<times> double) \<times> engine" where
  "simplex_fractal_2d_loop now x y octaves persistence lacunarity i (value, amplitude, frequency, maxValue) e =
     (if c_lt i octaves
      then
        case simplex_noise_2d now (fmul x frequency) (fmul y frequency) e of (noise, e1) \<Rightarrow>
          simplex_fractal_2d_loop now x y octaves persistence lacunarity (i + 1)
            (fadd value (fmul noise amplitude),
             fmul amplitude persistence,
             fmul frequency lacunarity,
             fadd maxValue amplitude) e1
      else ((value, amplitude, frequency, maxValue), e))"
  by pat_completeness auto
termination
by (relation "measure (\<lambda>(now, x, y, octaves, persistence, lacunarity, i, st, e).
                            nat (sint octaves - sint i))") (auto intro: c_lt_D c_lt_step)

declare simplex_fractal_2d_loop.simps [simp del]

definition simplex_fractal_2d ::
  "u64 \<Rightarrow> double \<Rightarrow> double \<Rightarrow> cint \<Rightarrow> double \<Rightarrow> double \<Rightarrow> engine \<Rightarrow> double \<times> engine" where
  "simplex_fractal_2d now x y octaves persistence lacunarity e =
     (case simplex_fractal_2d_loop now x y octaves persistence lacunarity 0
             (d_lit 0 1, d_lit 1 1, d_lit 1 1, d_lit 0 1) e of
        ((value, amplitude, frequency, maxValue), e1) \<Rightarrow> (fdiv value maxValue, e1))"

function simplex_fractal_3d_loop ::
  "u64 \<Rightarrow> double \<Rightarrow> double \<Rightarrow> double \<Rightarrow> cint \<Rightarrow> double \<Rightarrow> double \<Rightarrow> cint \<Rightarrow>
   double \<times> double \<times> double \<times> double \<Rightarrow> engine \<Rightarrow>
   (double \<times> double \<times> double \<times> double) \<times> engine" where
  "simplex_fractal_3d_loop now x y z octaves persistence lacunarity i (value, amplitude, frequency, maxValue) e =
     (if c_lt i octaves
      then
        case simplex_noise_3d now (fmul x frequency) (fmul y frequency) (fmul z frequency) e of (noise, e1) \<Rightarrow>
          simplex_fractal_3d_loop now x y z octaves persistence lacunarity (i + 1)
            (fadd value (fmul noise amplitude),
             fmul amplitude persistence,
             fmul frequency lacunarity,
             fadd maxValue amplitude) e1
      else ((value, amplitude, frequency, maxValue), e))"
  by pat_completeness auto
termination
by (relation "measure (\<lambda>(now, x, y, z, octaves, persistence, lacunarity, i, st, e).
                            nat (sint octaves - sint i))") (auto intro: c_lt_D c_lt_step)

declare simplex_fractal_3d_loop.simps [simp del]

definition simplex_fractal_3d ::
  "u64 \<Rightarrow> double \<Rightarrow> double \<Rightarrow> double \<Rightarrow> cint \<Rightarrow> double \<Rightarrow> double \<Rightarrow> engine \<Rightarrow> double \<times> engine" where
  "simplex_fractal_3d now x y z octaves persistence lacunarity e =
     (case simplex_fractal_3d_loop now x y z octaves persistence lacunarity 0
             (d_lit 0 1, d_lit 1 1, d_lit 1 1, d_lit 0 1) e of
        ((value, amplitude, frequency, maxValue), e1) \<Rightarrow> (fdiv value maxValue, e1))"

section \<open>The array fillers\<close>

text \<open>
  The memory the pointer \<^verbatim>\<open>output\<close> points into is a map from the element offset to the
  double stored there: \<open>output k\<close> is \<^verbatim>\<open>output[k]\<close>. The offset of a store is the \<^verbatim>\<open>int\<close>
  the source computes, so it is read in two's complement after the 32-bit arithmetic.
  \<open>None\<close> is the null pointer. A filler returns its status, the memory and the state.
\<close>

type_synonym buffer = "int \<Rightarrow> double"

function simplex_noise_array_2d_x ::
  "u64 \<Rightarrow> double \<Rightarrow> double \<Rightarrow> cint \<Rightarrow> double \<Rightarrow> cint \<Rightarrow> cint \<Rightarrow> buffer \<Rightarrow> engine \<Rightarrow> buffer \<times> engine" where
  "simplex_noise_array_2d_x now x_start y_start width step y x output e =
     (if c_lt x width
      then
        let noise_x = fadd x_start (fmul (d_of_int x) step);
            noise_y = fadd y_start (fmul (d_of_int y) step)
        in case simplex_noise_2d now noise_x noise_y e of (n, e1) \<Rightarrow>
             simplex_noise_array_2d_x now x_start y_start width step y (x + 1)
               (output(sint (y * width + x) := n)) e1
      else (output, e))"
  by pat_completeness auto
termination
  by (relation "measure (\<lambda>(now, x_start, y_start, width, step, y, x, output, e).
                            nat (sint width - sint x))") (auto intro: c_lt_D c_lt_step)

declare simplex_noise_array_2d_x.simps [simp del]

function simplex_noise_array_2d_y ::
  "u64 \<Rightarrow> double \<Rightarrow> double \<Rightarrow> cint \<Rightarrow> cint \<Rightarrow> double \<Rightarrow> cint \<Rightarrow> buffer \<Rightarrow> engine \<Rightarrow> buffer \<times> engine" where
  "simplex_noise_array_2d_y now x_start y_start width height step y output e =
     (if c_lt y height
      then
        case simplex_noise_array_2d_x now x_start y_start width step y 0 output e of
          (output1, e1) \<Rightarrow>
            simplex_noise_array_2d_y now x_start y_start width height step (y + 1) output1 e1
      else (output, e))"
  by pat_completeness auto
termination
  by (relation "measure (\<lambda>(now, x_start, y_start, width, height, step, y, output, e).
                            nat (sint height - sint y))") (auto intro: c_lt_D c_lt_step)

declare simplex_noise_array_2d_y.simps [simp del]

definition simplex_noise_array_2d ::
  "u64 \<Rightarrow> double \<Rightarrow> double \<Rightarrow> cint \<Rightarrow> cint \<Rightarrow> double \<Rightarrow> buffer option \<Rightarrow> engine \<Rightarrow>
   cint \<times> buffer option \<times> engine" where
  "simplex_noise_array_2d now x_start y_start width height step output e =
     (case output of
        None \<Rightarrow> (- 1, None, e)
      | Some out \<Rightarrow>
          if c_le width 0 \<or> c_le height 0 then (- 1, Some out, e)
          else
            case simplex_noise_array_2d_y now x_start y_start width height step 0 out e of
              (out1, e1) \<Rightarrow> (0, Some out1, e1))"

function simplex_noise_array_3d_x ::
  "u64 \<Rightarrow> double \<Rightarrow> double \<Rightarrow> double \<Rightarrow> cint \<Rightarrow> cint \<Rightarrow> double \<Rightarrow> cint \<Rightarrow> cint \<Rightarrow> cint \<Rightarrow>
   buffer \<Rightarrow> engine \<Rightarrow> buffer \<times> engine" where
  "simplex_noise_array_3d_x now x_start y_start z_start width height step z y x output e =
     (if c_lt x width
      then
        let noise_x = fadd x_start (fmul (d_of_int x) step);
            noise_y = fadd y_start (fmul (d_of_int y) step);
            noise_z = fadd z_start (fmul (d_of_int z) step)
        in case simplex_noise_3d now noise_x noise_y noise_z e of (n, e1) \<Rightarrow>
             simplex_noise_array_3d_x now x_start y_start z_start width height step z y (x + 1)
               (output(sint ((z * height + y) * width + x) := n)) e1
      else (output, e))"
  by pat_completeness auto
termination
  by (relation "measure (\<lambda>(now, x_start, y_start, z_start, width, height, step, z, y, x, output, e).
                            nat (sint width - sint x))") (auto intro: c_lt_D c_lt_step)

declare simplex_noise_array_3d_x.simps [simp del]

function simplex_noise_array_3d_y ::
  "u64 \<Rightarrow> double \<Rightarrow> double \<Rightarrow> double \<Rightarrow> cint \<Rightarrow> cint \<Rightarrow> double \<Rightarrow> cint \<Rightarrow> cint \<Rightarrow>
   buffer \<Rightarrow> engine \<Rightarrow> buffer \<times> engine" where
  "simplex_noise_array_3d_y now x_start y_start z_start width height step z y output e =
     (if c_lt y height
      then
        case simplex_noise_array_3d_x now x_start y_start z_start width height step z y 0 output e of
          (output1, e1) \<Rightarrow>
            simplex_noise_array_3d_y now x_start y_start z_start width height step z (y + 1) output1 e1
      else (output, e))"
  by pat_completeness auto
termination
  by (relation "measure (\<lambda>(now, x_start, y_start, z_start, width, height, step, z, y, output, e).
                            nat (sint height - sint y))") (auto intro: c_lt_D c_lt_step)

declare simplex_noise_array_3d_y.simps [simp del]

function simplex_noise_array_3d_z ::
  "u64 \<Rightarrow> double \<Rightarrow> double \<Rightarrow> double \<Rightarrow> cint \<Rightarrow> cint \<Rightarrow> cint \<Rightarrow> double \<Rightarrow> cint \<Rightarrow>
   buffer \<Rightarrow> engine \<Rightarrow> buffer \<times> engine" where
  "simplex_noise_array_3d_z now x_start y_start z_start width height depth step z output e =
     (if c_lt z depth
      then
        case simplex_noise_array_3d_y now x_start y_start z_start width height step z 0 output e of
          (output1, e1) \<Rightarrow>
            simplex_noise_array_3d_z now x_start y_start z_start width height depth step (z + 1)
              output1 e1
      else (output, e))"
  by pat_completeness auto
termination
  by (relation "measure (\<lambda>(now, x_start, y_start, z_start, width, height, depth, step, z, output, e).
                            nat (sint depth - sint z))") (auto intro: c_lt_D c_lt_step)

declare simplex_noise_array_3d_z.simps [simp del]

definition simplex_noise_array_3d ::
  "u64 \<Rightarrow> double \<Rightarrow> double \<Rightarrow> double \<Rightarrow> cint \<Rightarrow> cint \<Rightarrow> cint \<Rightarrow> double \<Rightarrow> buffer option \<Rightarrow>
   engine \<Rightarrow> cint \<times> buffer option \<times> engine" where
  "simplex_noise_array_3d now x_start y_start z_start width height depth step output e =
     (case output of
        None \<Rightarrow> (- 1, None, e)
      | Some out \<Rightarrow>
          if c_le width 0 \<or> c_le height 0 \<or> c_le depth 0 then (- 1, Some out, e)
          else
            case simplex_noise_array_3d_z now x_start y_start z_start width height depth step 0
                   out e of
              (out1, e1) \<Rightarrow> (0, Some out1, e1))"

section \<open>Sampling sequences\<close>

text \<open>
  A sampling run is a list of calls of the kernels, the variants and the fractal sums,
  each with the clock reading of its moment; its outcome is the list of the doubles
  returned. The statements about two runs are about this list.
\<close>

datatype query =
    Noise_1d double
  | Noise_2d double double
  | Noise_3d double double double
  | Noise_4d double double double double
  | Ridged_1d double
  | Ridged_2d double double
  | Ridged_3d double double double
  | Billowy_1d double
  | Billowy_2d double double
  | Billowy_3d double double double
  | Fbm_2d double double cint double double
  | Fbm_3d double double double cint double double
  | Hybrid_multifractal_2d double double cint double double double
  | Domain_warp_2d double double double
  | Fractal_2d double double cint double double
  | Fractal_3d double double double cint double double

fun sample :: "u64 \<Rightarrow> query \<Rightarrow> engine \<Rightarrow> double \<times> engine" where
  "sample now (Noise_1d x) e = simplex_noise_1d now x e"
| "sample now (Noise_2d x y) e = simplex_noise_2d now x y e"
| "sample now (Noise_3d x y z) e = simplex_noise_3d now x y z e"
| "sample now (Noise_4d x y z w) e = simplex_noise_4d now x y z w e"
| "sample now (Ridged_1d x) e = simplex_ridged_1d now x e"
| "sample now (Ridged_2d x y) e = simplex_ridged_2d now x y e"
| "sample now (Ridged_3d x y z) e = simplex_ridged_3d now x y z e"
| "sample now (Billowy_1d x) e = simplex_billowy_1d now x e"
| "sample now (Billowy_2d x y) e = simplex_billowy_2d now x y e"
| "sample now (Billowy_3d x y z) e = simplex_billowy_3d now x y z e"
| "sample now (Fbm_2d x y octaves persistence lacunarity) e =
     simplex_fbm_2d now x y octaves persistence lacunarity e"
| "sample now (Fbm_3d x y z octaves persistence lacunarity) e =
     simplex_fbm_3d now x y z octaves persistence lacunarity e"
| "sample now (Hybrid_multifractal_2d x y octaves persistence lacunarity offset) e =
     simplex_hybrid_multifractal_2d now x y octaves persistence lacunarity offset e"
| "sample now (Domain_warp_2d x y warp_strength) e = simplex_domain_warp_2d now x y warp_strength e"
| "sample now (Fractal_2d x y octaves persistence lacunarity) e =
     simplex_fractal_2d now x y octaves persistence lacunarity e"
| "sample now (Fractal_3d x y z octaves persistence lacunarity) e =
     simplex_fractal_3d now x y z octaves persistence lacunarity e"

fun sample_seq :: "(u64 \<times> query) list \<Rightarrow> engine \<Rightarrow> double list \<times> engine" where
  "sample_seq [] e = ([], e)"
| "sample_seq ((now, q) # qs) e =
     (case sample now q e of (r, e1) \<Rightarrow>
        case sample_seq qs e1 of (rs, e2) \<Rightarrow> (r # rs, e2))"

text \<open>The state of a process that has called nothing yet: C zeroes static storage.\<close>

definition engine_zero :: engine where
  "engine_zero =
     \<lparr>perm = replicate 512 0,
      initialized = 0,
      global_config =
        \<lparr>cfg_prng_type = 0, cfg_noise_variant = 0, cfg_interp_type = 0, cfg_precision = 0,
         cfg_seed = 0, cfg_enable_simd = 0, cfg_enable_caching = 0, cfg_enable_profiling = 0,
         cfg_persistence = 0, cfg_lacunarity = 0, cfg_octaves = 0, cfg_frequency = 0,
         cfg_amplitude = 0, cfg_offset = 0, cfg_scale = 0, cfg_config_file = [],
         cfg_output_file = [], cfg_verbose_mode = 0, cfg_debug_mode = 0, cfg_auto_save = 0,
         cfg_validate_inputs = 0, cfg_cache_size_mb = 0, cfg_max_threads = 0,
         cfg_chunk_size = 0, cfg_memory_limit_mb = 0\<rparr>,
      perf_stats = perf_stats_zero,
      prng_state =
        \<lparr>lcg_state = 0, mersenne_state = replicate 624 0, mersenne_index = 0,
         xorshift_state = replicate 4 0, pcg_state = 0, pcg_inc = 0\<rparr>,
      noise_cache =
        replicate 1024 \<lparr>ce_x = 0, ce_y = 0, ce_z = 0, ce_w = 0, ce_result = 0, ce_valid = 0\<rparr>,
      cache_enabled = 0,
      cache_hits = 0,
      cache_misses = 0,
      profiling_enabled = 0,
      function_call_count = 0\<rparr>"

text \<open>The invariant of the permutation table: each of 0..255 once among the first 256
  entries, and the second half a copy of the first.\<close>

definition perm_valid :: "cint list \<Rightarrow> bool" where
  "perm_valid p =
     (length p = 512 \<and>
      list_all (\<lambda>v. count_list (take 256 p) (of_nat v) = 1) [0..<256] \<and>
      list_all (\<lambda>i. p ! (256 + i) = p ! i) [0..<256])"

section \<open>The specification's hybrid multifractal\<close>

text \<open>
  The specification's description of the hybrid multifractal, word for word: the value
  starts at 1; each octave multiplies it by
  \<open>(offset + |kernel at the frequency-scaled point|) * amplitude\<close>, then multiplies the amplitude
  by the persistence and the frequency by the lacunarity; the value is returned as it
  is, with no division by the accumulated amplitude. The kernel is the body of
  \<^verbatim>\<open>simplex_noise_2d\<close> over a permutation table \<open>p\<close>; the state is
  \<open>(value, amplitude, frequency)\<close>.
\<close>

fun spec_hybrid_octaves ::
  "cint list \<Rightarrow> double \<Rightarrow> double \<Rightarrow> double \<Rightarrow> double \<Rightarrow> double \<Rightarrow> nat \<Rightarrow>
   double \<times> double \<times> double \<Rightarrow> double" where
  "spec_hybrid_octaves p x y persistence lacunarity offset 0 (v, a, f) = v"
| "spec_hybrid_octaves p x y persistence lacunarity offset (Suc n) (v, a, f) =
     spec_hybrid_octaves p x y persistence lacunarity offset n
       (fmul v (fmul (fadd offset (fabs (noise_2d_body p (fmul x f) (fmul y f)))) a),
        fmul a persistence,
        fmul f lacunarity)"

definition spec_hybrid_multifractal ::
  "cint list \<Rightarrow> double \<Rightarrow> double \<Rightarrow> nat \<Rightarrow> double \<Rightarrow> double \<Rightarrow> double \<Rightarrow> double" where
  "spec_hybrid_multifractal p x y octaves persistence lacunarity offset =
     spec_hybrid_octaves p x y persistence lacunarity offset octaves (d_lit 1 1, d_lit 1 1, d_lit 1 1)"

section \<open>Relations between two runs\<close>

text \<open>
  Two states agree for the shuffle when they select the same generator, hold the same
  state of that generator and the same first half of the table. Two states agree for
  sampling when both are initialised with the same table, or neither is initialised
  (and their arrays have their declared sizes, so that the initialisation the first
  kernel call performs can be compared).
\<close>

definition gen_equiv :: "engine \<Rightarrow> engine \<Rightarrow> bool" where
  "gen_equiv e e' =
     (let t = cfg_prng_type (global_config e); ps = prng_state e; ps' = prng_state e'
      in cfg_prng_type (global_config e') = t \<and>
         length (perm e) = 512 \<and> length (perm e') = 512 \<and>
         take 256 (perm e) = take 256 (perm e') \<and>
         (if t = SIMPLEX_PRG_MERSENNE_TWISTER
            then mersenne_state ps = mersenne_state ps' \<and> mersenne_index ps = mersenne_index ps'
          else if t = SIMPLEX_PRG_XORSHIFT then xorshift_state ps = xorshift_state ps'
          else if t = SIMPLEX_PRG_PCG then pcg_state ps = pcg_state ps' \<and> pcg_inc ps = pcg_inc ps'
          else lcg_state ps = lcg_state ps'))"

definition same_noise :: "engine \<Rightarrow> engine \<Rightarrow> bool" where
  "same_noise e e' =
     (if initialized e = 0 then initialized e' = 0 \<and> wf_engine e \<and> wf_engine e'
      else initialized e' \<noteq> 0 \<and> perm e = perm e')"

text \<open>The seed the generator is started from: the clock when the configured seed is 0.\<close>

definition effective_seed :: "simplex_config_t \<Rightarrow> u64 \<Rightarrow> u32" where
  "effective_seed c now = (if cfg_seed c = 0 then ucast now else cfg_seed c)"

text \<open>
  What a call keeps, for a function \<open>f\<close> of the clock reading and the state: on two
  states that agree for sampling, at the same reading or both initialised, the two
  results are equal, the two states afterwards agree again, and an initialised state is
  not changed at all.
\<close>

definition call_equiv ::
  "(u64 \<Rightarrow> engine \<Rightarrow> 'a \<times> engine) \<Rightarrow> bool" where
  "call_equiv f =
     (\<forall>now now' e e'. same_noise e e' \<and> (now = now' \<or> initialized e \<noteq> 0) \<longrightarrow>
        fst (f now e) = fst (f now' e') \<and>
        same_noise (snd (f now e)) (snd (f now' e')) \<and>
        (initialized e \<noteq> 0 \<longrightarrow> snd (f now e) = e))"

text \<open>A memory whose every cell holds the same pattern, a signalling NaN, which no
  multiplication returns.\<close>

definition snan_buffer :: buffer where
  "snan_buffer k = 0x7FF0000000000001"

section \<open>The permutation table after initialisation\<close>

lemma length_perm_identity_loop: "length (perm_identity_loop i p) = length p"
  by (induction i p rule: perm_identity_loop.induct)
     (subst perm_identity_loop.simps, simp)

lemma nth_perm_identity_loop:
  "k < length p \<Longrightarrow>
   perm_identity_loop i p ! k = (if i \<le> k \<and> k < 256 then of_nat k else p ! k)"
proof (induction i p rule: perm_identity_loop.induct)
  case (1 i p)
  show ?case
  proof (cases "i < 256")
    case True
    have "perm_identity_loop i p ! k = perm_identity_loop (i + 1) (p[i := of_nat i]) ! k"
      using True by (subst perm_identity_loop.simps) simp
    also have "\<dots> = (if i + 1 \<le> k \<and> k < 256 then of_nat k else p[i := of_nat i] ! k)"
      using 1 True by simp
    also have "\<dots> = (if i \<le> k \<and> k < 256 then of_nat k else p ! k)"
      using 1(2) True by (cases "k = i") (auto simp: nth_list_update)
    finally show ?thesis .
  next
    case False
    then show ?thesis
      by (subst perm_identity_loop.simps) auto
  qed
qed

lemma take_perm_identity_loop:
  "length p = 512 \<Longrightarrow> take 256 (perm_identity_loop 0 p) = map of_nat [0..<256]"
  by (rule nth_equalityI) (simp_all add: length_perm_identity_loop nth_perm_identity_loop)

lemma length_perm_duplicate_loop: "length (perm_duplicate_loop i p) = length p"
  by (induction i p rule: perm_duplicate_loop.induct)
     (subst perm_duplicate_loop.simps, simp)

lemma nth_perm_duplicate_loop:
  "length p = 512 \<Longrightarrow> k < 512 \<Longrightarrow>
   perm_duplicate_loop i p ! k = (if 256 + i \<le> k then p ! (k - 256) else p ! k)"
proof (induction i p rule: perm_duplicate_loop.induct)
  case (1 i p)
  show ?case
  proof (cases "i < 256")
    case True
    have "perm_duplicate_loop i p ! k = perm_duplicate_loop (i + 1) (p[256 + i := p ! i]) ! k"
      using True by (subst perm_duplicate_loop.simps) simp
    also have "\<dots> = (if 256 + (i + 1) \<le> k then p[256 + i := p ! i] ! (k - 256)
                       else p[256 + i := p ! i] ! k)"
      using 1 True by simp
    also have "\<dots> = (if 256 + i \<le> k then p ! (k - 256) else p ! k)"
      using 1(2,3) True by (cases "k = 256 + i") (auto simp: nth_list_update)
    finally show ?thesis .
  next
    case False
    with 1 show ?thesis
      by (subst perm_duplicate_loop.simps) simp
  qed
qed

lemma perm_prng_next: "perm (snd (prng_next e)) = perm e"
  by (simp add: prng_next_def Let_def split: prod.splits)

lemma unat_draw: "i < 256 \<Longrightarrow> unat ((r :: u32) mod of_nat (i + 1)) \<le> i"
proof -
  assume "i < 256"
  then have "unat (of_nat (i + 1) :: u32) = i + 1"
    by (simp add: unat_of_nat del: of_nat_Suc of_nat_add)
  then have "unat (r mod of_nat (i + 1)) = unat r mod (i + 1)"
    by (simp add: unat_mod del: of_nat_Suc of_nat_add)
  moreover have "unat r mod (i + 1) < i + 1" by simp
  ultimately show ?thesis by linarith
qed

lemma mset_take_swap:
  "i < n \<Longrightarrow> j < n \<Longrightarrow> n \<le> length p \<Longrightarrow>
   mset (take n (p[i := p ! j, j := p ! i])) = mset (take n p)"
proof -
  assume a: "i < n" "j < n" "n \<le> length p"
  have "take n (p[i := p ! j, j := p ! i]) = (take n p)[i := take n p ! j, j := take n p ! i]"
    using a by (simp add: take_update_swap)
  then show ?thesis using a mset_swap [of j "take n p" i] by simp
qed

lemma shuffle_loop_perm:
  "i < 256 \<Longrightarrow> length (perm e) = 512 \<Longrightarrow>
   length (perm (shuffle_loop i e)) = 512 \<and>
   mset (take 256 (perm (shuffle_loop i e))) = mset (take 256 (perm e))"
proof (induction i e rule: shuffle_loop.induct)
  case (1 i e)
  show ?case
  proof (cases "0 < i")
    case False
    then show ?thesis using 1(3) by (subst (1 2) shuffle_loop.simps) simp
  next
    case True
    obtain r e1 where pn: "prng_next e = (r, e1)" by (cases "prng_next e")
    then have pe: "perm e1 = perm e" using perm_prng_next [of e] by simp
    define j where "j = unat (r mod of_nat (i + 1))"
    define p2 where "p2 = (perm e1)[i := perm e1 ! j, j := perm e1 ! i]"
    have jle: "j \<le> i" unfolding j_def using unat_draw [of i r] 1(2) by simp
    have step: "shuffle_loop i e = shuffle_loop (i - 1) (e1\<lparr>perm := p2\<rparr>)"
      using True pn by (subst shuffle_loop.simps) (simp add: Let_def j_def p2_def)
    have len: "length (perm (e1\<lparr>perm := p2\<rparr>)) = 512" using 1(3) pe by (simp add: p2_def)
    note IH = 1(1) [OF True pn [symmetric] refl refl refl refl refl]
    have "length (perm (shuffle_loop (i - 1) (e1\<lparr>perm := p2\<rparr>))) = 512 \<and>
          mset (take 256 (perm (shuffle_loop (i - 1) (e1\<lparr>perm := p2\<rparr>)))) =
          mset (take 256 (perm (e1\<lparr>perm := p2\<rparr>)))"
      using IH 1(2) len by (simp add: j_def p2_def)
    moreover have "mset (take 256 p2) = mset (take 256 (perm e))"
      unfolding p2_def pe using mset_take_swap [of i 256 j "perm e"] jle 1(2) 1(3) by simp
    ultimately show ?thesis using step by simp
  qed
qed

lemma distinct_identity: "distinct (map of_nat [0..<256] :: cint list)"
proof -
  have "inj_on (of_nat :: nat \<Rightarrow> cint) (set [0..<256])"
  proof (rule inj_onI)
    fix a b :: nat
    assume "a \<in> set [0..<256]" "b \<in> set [0..<256]" "(of_nat a :: cint) = of_nat b"
    then have "unat (of_nat a :: cint) = unat (of_nat b :: cint)" "a < 256" "b < 256" by simp_all
    then show "a = b" by (simp add: unat_of_nat)
  qed
  then show ?thesis by (simp add: distinct_map)
qed

lemma count_identity:
  "v < 256 \<Longrightarrow> mset (take 256 p) = mset (map of_nat [0..<256] :: cint list) \<Longrightarrow>
   count_list (take 256 p) (of_nat v) = 1"
proof -
  assume v: "v < 256" and m: "mset (take 256 p) = mset (map of_nat [0..<256] :: cint list)"
  have "count (mset (map of_nat [0..<256] :: cint list)) (of_nat v) = 1"
    using distinct_identity v by (simp add: distinct_count_atmost_1 del: upt.simps map_upt_Suc)
  then show ?thesis using m by (simp add: count_mset [symmetric] del: count_mset)
qed


lemma perm_prng_init: "perm (prng_init s e) = perm e"
  by (simp add: prng_init_def Let_def)

lemma perm_valid_duplicate:
  assumes len: "length p = 512"
    and m: "mset (take 256 p) = mset (map of_nat [0..<256] :: cint list)"
  shows "perm_valid (perm_duplicate_loop 0 p)"
proof -
  let ?q = "perm_duplicate_loop 0 p"
  have lq: "length ?q = 512" using len by (simp add: length_perm_duplicate_loop)
  have low: "?q ! k = p ! k" if "k < 256" for k
    using that len by (simp add: nth_perm_duplicate_loop)
  have high: "?q ! (256 + k) = p ! k" if "k < 256" for k
    using that len by (simp add: nth_perm_duplicate_loop)
  have "take 256 ?q = take 256 p"
    using lq len low by (intro nth_equalityI) simp_all
  then have "count_list (take 256 ?q) (of_nat v) = 1" if "v < 256" for v
    using count_identity [OF that m] by simp
  moreover have "?q ! (256 + k) = ?q ! k" if "k < 256" for k
    using that low high by simp
  ultimately show ?thesis
    using lq by (simp add: perm_valid_def list_all_iff)
qed

lemma perm_init_advanced:
  assumes "length (perm e) = 512"
  shows "perm_valid (perm (snd (simplex_noise_init_advanced (Some c) now e)))"
proof -
  define e2 where "e2 = (if cfg_seed c = 0
     then e\<lparr>global_config := c\<lparr>cfg_seed := ucast now\<rparr>\<rparr> else e\<lparr>global_config := c\<rparr>)"
  define e4 where "e4 = (prng_init (cfg_seed (global_config e2)) e2)
     \<lparr>perm := perm_identity_loop 0 (perm (prng_init (cfg_seed (global_config e2)) e2))\<rparr>"
  have p2: "perm e2 = perm e" by (simp add: e2_def)
  have l4: "length (perm e4) = 512"
    using assms by (simp add: e4_def p2 perm_prng_init length_perm_identity_loop)
  have t4: "take 256 (perm e4) = map of_nat [0..<256]"
    using assms by (simp add: e4_def p2 perm_prng_init take_perm_identity_loop del: upt.simps map_upt_Suc)
  have s5: "length (perm (shuffle_loop 255 e4)) = 512"
    "mset (take 256 (perm (shuffle_loop 255 e4))) = mset (take 256 (perm e4))"
    using shuffle_loop_perm [of 255 e4] l4 by simp_all
  have "perm (snd (simplex_noise_init_advanced (Some c) now e)) =
        perm_duplicate_loop 0 (perm (shuffle_loop 255 e4))"
    by (simp add: simplex_noise_init_advanced_def Let_def e4_def e2_def)
  then show ?thesis
    using perm_valid_duplicate [OF s5(1)] s5(2) t4 by simp
qed

text \<open>
  Claim C2. After a successful \<^verbatim>\<open>simplex_noise_init_advanced\<close> (status 0, any
  configuration, whatever the clock reads when the seed is 0) and after
  \<^verbatim>\<open>simplex_noise_init\<close> with any seed, the permutation table has 512 entries, each of the
  values 0..255 occurs exactly once among the entries 0..255, and the entry \<open>256 + i\<close>
  equals the entry \<open>i\<close> for every \<open>i\<close> in 0..255.
\<close>

theorem permutation_valid_after_init:
  assumes "length (perm e) = 512"
  shows "(simplex_noise_init_advanced config now e = (0, e') \<longrightarrow> perm_valid (perm e')) \<and>
         perm_valid (perm (simplex_noise_init seed now e))"
proof (intro conjI impI)
  assume ok: "simplex_noise_init_advanced config now e = (0, e')"
  then obtain c where c: "config = Some c"
    by (cases config) (simp_all add: simplex_noise_init_advanced_def)
  show "perm_valid (perm e')"
    using perm_init_advanced [OF assms, of c now] ok c by simp
next
  show "perm_valid (perm (simplex_noise_init seed now e))"
    using perm_init_advanced [OF assms] by (simp add: simplex_noise_init_def Let_def)
qed

theorem permutation_valid_after_init_witness:
  "length (perm engine_zero) = 512 \<and>
   simplex_noise_init_advanced (Some (simplex_get_default_config\<lparr>cfg_seed := 12345\<rparr>)) 0 engine_zero =
     (0, snd (simplex_noise_init_advanced (Some (simplex_get_default_config\<lparr>cfg_seed := 12345\<rparr>)) 0 engine_zero)) \<and>
   perm_valid (perm (snd (simplex_noise_init_advanced
                            (Some (simplex_get_default_config\<lparr>cfg_seed := 12345\<rparr>)) 0 engine_zero))) \<and>
   perm_valid (perm (simplex_noise_init 12345 0 engine_zero))"
proof -
  have len: "length (perm engine_zero) = 512" by (simp add: engine_zero_def)
  have ok: "simplex_noise_init_advanced (Some (simplex_get_default_config\<lparr>cfg_seed := 12345\<rparr>)) 0 engine_zero =
     (0, snd (simplex_noise_init_advanced (Some (simplex_get_default_config\<lparr>cfg_seed := 12345\<rparr>)) 0 engine_zero))"
    by (simp add: simplex_noise_init_advanced_def Let_def)
  show ?thesis
    using len ok permutation_valid_after_init [OF len, of
        "Some (simplex_get_default_config\<lparr>cfg_seed := 12345\<rparr>)" 0
        "snd (simplex_noise_init_advanced (Some (simplex_get_default_config\<lparr>cfg_seed := 12345\<rparr>)) 0 engine_zero)"
        12345]
    by blast
qed

section \<open>The variants\<close>

text \<open>
  Claim C3. In every state and at every point, in one, two and three dimensions, the
  billowy variant returns exactly \<^verbatim>\<open>fabs\<close> of what the kernel returns there, and the
  ridged variant exactly \<^verbatim>\<open>1.0\<close> minus that absolute value: the same 64 bits, and the
  same state afterwards.
\<close>

theorem billowy_ridged_exact:
  "simplex_billowy_1d now x e =
     (fabs (fst (simplex_noise_1d now x e)), snd (simplex_noise_1d now x e)) \<and>
   simplex_billowy_2d now x y e =
     (fabs (fst (simplex_noise_2d now x y e)), snd (simplex_noise_2d now x y e)) \<and>
   simplex_billowy_3d now x y z e =
     (fabs (fst (simplex_noise_3d now x y z e)), snd (simplex_noise_3d now x y z e)) \<and>
   simplex_ridged_1d now x e =
     (fsub (d_lit 1 1) (fabs (fst (simplex_noise_1d now x e))), snd (simplex_noise_1d now x e)) \<and>
   simplex_ridged_2d now x y e =
     (fsub (d_lit 1 1) (fabs (fst (simplex_noise_2d now x y e))), snd (simplex_noise_2d now x y e)) \<and>
   simplex_ridged_3d now x y z e =
     (fsub (d_lit 1 1) (fabs (fst (simplex_noise_3d now x y z e))), snd (simplex_noise_3d now x y z e))"
  by (simp add: simplex_billowy_1d_def simplex_billowy_2d_def simplex_billowy_3d_def
      simplex_ridged_1d_def simplex_ridged_2d_def simplex_ridged_3d_def split: prod.splits)

section \<open>The fractal sums\<close>

lemma fractal_2d_loop_eq:
  "simplex_fractal_2d_loop now x y octaves persistence lacunarity i st e =
   simplex_fbm_2d_loop now x y octaves persistence lacunarity i st e"
proof (induction now x y octaves persistence lacunarity i st e rule: simplex_fbm_2d_loop.induct)
  case (1 now x y octaves persistence lacunarity i "value" amplitude frequency maxValue e)
  show ?case
    by (subst simplex_fractal_2d_loop.simps, subst simplex_fbm_2d_loop.simps)
       (auto split: prod.splits simp: 1)
qed

lemma fractal_3d_loop_eq:
  "simplex_fractal_3d_loop now x y z octaves persistence lacunarity i st e =
   simplex_fbm_3d_loop now x y z octaves persistence lacunarity i st e"
proof (induction now x y z octaves persistence lacunarity i st e rule: simplex_fbm_3d_loop.induct)
  case (1 now x y z octaves persistence lacunarity i "value" amplitude frequency maxValue e)
  show ?case
    by (subst simplex_fractal_3d_loop.simps, subst simplex_fbm_3d_loop.simps)
       (auto split: prod.splits simp: 1)
qed

text \<open>
  Claim C4. \<^verbatim>\<open>simplex_fractal_2d\<close> and \<^verbatim>\<open>simplex_fbm_2d\<close> return the same double and leave
  the same state for all coordinates, octave counts, persistences and lacunarities, and
  so do \<^verbatim>\<open>simplex_fractal_3d\<close> and \<^verbatim>\<open>simplex_fbm_3d\<close>.
\<close>

theorem fractal_is_fbm:
  "simplex_fractal_2d now x y octaves persistence lacunarity e =
     simplex_fbm_2d now x y octaves persistence lacunarity e \<and>
   simplex_fractal_3d now x y z octaves persistence lacunarity e =
     simplex_fbm_3d now x y z octaves persistence lacunarity e"
  by (simp add: simplex_fractal_2d_def simplex_fbm_2d_def simplex_fractal_3d_def
      simplex_fbm_3d_def fractal_2d_loop_eq fractal_3d_loop_eq)

lemma zero_div_zero_nan: "is_nan (fdiv (d_lit 0 1) (d_lit 0 1))"
  by (simp add: fdiv_def d_lit_def d_round_def d_zero_def is_nan_def is_zero_def is_inf_def
      d_expo_def d_frac_def d_default_nan_def)

text \<open>
  Claim C10. With an octave count of zero or less, the four fractal sums run no
  iteration, call no kernel (the state is untouched) and return the quotient of 0.0 by
  0.0, which is a NaN.
\<close>

theorem fbm_no_octaves_nan:
  assumes "c_le octaves 0"
  shows "simplex_fbm_2d now x y octaves persistence lacunarity e = (fdiv (d_lit 0 1) (d_lit 0 1), e) \<and>
         simplex_fbm_3d now x y z octaves persistence lacunarity e = (fdiv (d_lit 0 1) (d_lit 0 1), e) \<and>
         simplex_fractal_2d now x y octaves persistence lacunarity e = (fdiv (d_lit 0 1) (d_lit 0 1), e) \<and>
         simplex_fractal_3d now x y z octaves persistence lacunarity e = (fdiv (d_lit 0 1) (d_lit 0 1), e) \<and>
         is_nan (fdiv (d_lit 0 1) (d_lit 0 1))"
proof -
  have n: "\<not> c_lt 0 octaves" using assms by (simp add: c_lt_def c_le_def)
  show ?thesis
    using n zero_div_zero_nan
    by (simp add: simplex_fbm_2d_def simplex_fbm_3d_def simplex_fractal_2d_def
        simplex_fractal_3d_def simplex_fbm_2d_loop.simps simplex_fbm_3d_loop.simps
        simplex_fractal_2d_loop.simps simplex_fractal_3d_loop.simps)
qed

theorem fbm_no_octaves_nan_witness:
  "c_le (- 2) 0 \<and>
   simplex_fbm_2d 0 (d_lit 1 1) (d_lit 2 1) (- 2) (d_lit 5 10) (d_lit 2 1) engine_zero =
     (d_default_nan, engine_zero) \<and>
   simplex_fractal_3d 0 (d_lit 1 1) (d_lit 2 1) (d_lit 3 1) 0 (d_lit 5 10) (d_lit 2 1) engine_zero =
     (d_default_nan, engine_zero) \<and>
   is_nan d_default_nan"
proof -
  have a: "c_le (- 2) 0" "c_le 0 0" by (simp_all add: c_le_def)
  have v: "fdiv (d_lit 0 1) (d_lit 0 1) = d_default_nan"
    by (simp add: fdiv_def d_lit_def d_round_def d_zero_def is_nan_def is_zero_def is_inf_def
        d_expo_def d_frac_def d_default_nan_def)
  have n: "is_nan d_default_nan"
    by (simp add: is_nan_def d_expo_def d_frac_def d_default_nan_def)
  show ?thesis
    using a n fbm_no_octaves_nan [OF a(1), of 0 "d_lit 1 1" "d_lit 2 1" "d_lit 5 10" "d_lit 2 1" engine_zero]
      fbm_no_octaves_nan [OF a(2), of 0 "d_lit 1 1" "d_lit 2 1" "d_lit 5 10" "d_lit 2 1" engine_zero "d_lit 3 1"]
    unfolding v by blast
qed

section \<open>Status codes\<close>

text \<open>
  Claim C8. \<^verbatim>\<open>simplex_noise_init_advanced\<close> returns -1 exactly for the null configuration
  and 0 for every other; \<^verbatim>\<open>simplex_noise_array_2d\<close> returns -1 exactly when the output
  pointer is null or the width or the height is not positive, \<^verbatim>\<open>simplex_noise_array_3d\<close>
  also when the depth is not positive, and both return 0 otherwise.
\<close>

theorem status_codes:
  "fst (simplex_noise_init_advanced config now e) = (if config = None then - 1 else 0) \<and>
   fst (simplex_noise_array_2d now x_start y_start width height step output e) =
     (if output = None \<or> sint width \<le> 0 \<or> sint height \<le> 0 then - 1 else 0) \<and>
   fst (simplex_noise_array_3d now x_start y_start z_start width height depth step output e) =
     (if output = None \<or> sint width \<le> 0 \<or> sint height \<le> 0 \<or> sint depth \<le> 0 then - 1 else 0) \<and>
   sint (- 1 :: cint) < 0"
  by (auto simp: simplex_noise_init_advanced_def simplex_noise_array_2d_def
      simplex_noise_array_3d_def c_le_def Let_def split: option.splits prod.splits)

section \<open>The hybrid multifractal\<close>

lemma initialized_after_init:
  "initialized (snd (simplex_noise_init_advanced (Some c) now e)) = 1"
  by (simp add: simplex_noise_init_advanced_def Let_def)

lemma initialized_lazy_init: "initialized (lazy_init now e) \<noteq> 0"
  by (simp add: lazy_init_def simplex_noise_init_def initialized_after_init)

lemma lazy_init_idem: "lazy_init now' (lazy_init now e) = lazy_init now e"
  using initialized_lazy_init [of now e] by (simp add: lazy_init_def [of now'])

lemma lazy_init_id: "initialized e \<noteq> 0 \<Longrightarrow> lazy_init now e = e"
  by (simp add: lazy_init_def)

lemma hybrid_loop_spec:
  "simplex_hybrid_multifractal_2d_loop now x y octaves persistence lacunarity offset i st e =
     (r, e') \<Longrightarrow>
   fst r = spec_hybrid_octaves (perm (lazy_init now e)) x y persistence lacunarity offset
             (nat (sint octaves - sint i)) st \<and>
   e' = (if c_lt i octaves then lazy_init now e else e)"
proof (induction now x y octaves persistence lacunarity offset i st e arbitrary: r e'
    rule: simplex_hybrid_multifractal_2d_loop.induct)
  case (1 now x y octaves persistence lacunarity offset i v a f e)
  show ?case
  proof (cases "c_lt i octaves")
    case False
    then have "nat (sint octaves - sint i) = 0" by (simp add: c_lt_def)
    then show ?thesis
      using False 1(2) by (auto simp add: simplex_hybrid_multifractal_2d_loop.simps)
  next
    case True
    let ?e1 = "lazy_init now e"
    let ?n = "noise_2d_body (perm ?e1) (fmul x f) (fmul y f)"
    let ?st = "(fmul v (fmul (fadd offset (fabs ?n)) a), fmul a persistence, fmul f lacunarity)"
    have k: "simplex_noise_2d now (fmul x f) (fmul y f) e = (?n, ?e1)"
      by (simp add: simplex_noise_2d_def Let_def)
    have step: "simplex_hybrid_multifractal_2d_loop now x y octaves persistence lacunarity offset
                  (i + 1) ?st ?e1 = (r, e')"
      using 1(2) True k by (simp add: simplex_hybrid_multifractal_2d_loop.simps [of _ _ _ _ _ _ _ i])
    have IH: "fst r = spec_hybrid_octaves (perm (lazy_init now ?e1)) x y persistence lacunarity
                 offset (nat (sint octaves - sint (i + 1))) ?st \<and>
              e' = (if c_lt (i + 1) octaves then lazy_init now ?e1 else ?e1)"
      using 1(1) [OF True k [symmetric] step] .
    have n: "nat (sint octaves - sint i) = Suc (nat (sint octaves - sint (i + 1)))"
      using True c_lt_succ [OF True] by (simp add: c_lt_def)
    show ?thesis
      using IH True by (simp add: n lazy_init_idem)
  qed
qed

text \<open>
  Claim C7. \<^verbatim>\<open>simplex_hybrid_multifractal_2d\<close> returns what the specification's recurrence
  gives after \<open>octaves\<close> octaves over the table of the state the first kernel call works
  in: the value starts at 1, each octave multiplies it by
  \<open>(offset + |kernel|) * amplitude\<close> and then scales amplitude and frequency, and nothing
  divides the result. With one octave or more the state afterwards is the one the
  kernel's opening test leaves.
\<close>

theorem hybrid_multifractal_spec:
  "simplex_hybrid_multifractal_2d now x y octaves persistence lacunarity offset e =
     (spec_hybrid_multifractal (perm (lazy_init now e)) x y (nat (sint octaves))
        persistence lacunarity offset,
      if 1 \<le> sint octaves then lazy_init now e else e)"
proof -
  obtain r e' where l: "simplex_hybrid_multifractal_2d_loop now x y octaves persistence lacunarity
      offset 0 (d_lit 1 1, d_lit 1 1, d_lit 1 1) e = (r, e')"
    by (cases "simplex_hybrid_multifractal_2d_loop now x y octaves persistence lacunarity
      offset 0 (d_lit 1 1, d_lit 1 1, d_lit 1 1) e")
  have c: "c_lt 0 octaves \<longleftrightarrow> 1 \<le> sint octaves" by (auto simp: c_lt_def)
  show ?thesis
    using hybrid_loop_spec [OF l] l
    by (cases r) (auto simp add: simplex_hybrid_multifractal_2d_def spec_hybrid_multifractal_def c
        simp del: One_nat_def)
qed

section \<open>Two runs\<close>

lemma take_swap:
  "i < n \<Longrightarrow> j < n \<Longrightarrow> n \<le> length p \<Longrightarrow>
   take n (p[i := p ! j, j := p ! i]) = (take n p)[i := take n p ! j, j := take n p ! i]"
  by (simp add: take_update_swap)

lemma prng_next_equiv:
  assumes "gen_equiv e e'"
  shows "fst (prng_next e) = fst (prng_next e') \<and> gen_equiv (snd (prng_next e)) (snd (prng_next e'))"
  using assms
  by (auto simp: prng_next_def gen_equiv_def Let_def lcg_next_def mersenne_next_def
      mersenne_generate_def xorshift_next_def pcg_next_def
      SIMPLEX_PRG_LINEAR_CONGRUENTIAL_def SIMPLEX_PRG_MERSENNE_TWISTER_def
      SIMPLEX_PRG_XORSHIFT_def SIMPLEX_PRG_PCG_def split: prod.splits)

lemma gen_equiv_perm_update:
  "gen_equiv e e' \<Longrightarrow> length p = 512 \<Longrightarrow> length p' = 512 \<Longrightarrow> take 256 p = take 256 p' \<Longrightarrow>
   gen_equiv (e\<lparr>perm := p\<rparr>) (e'\<lparr>perm := p'\<rparr>)"
  by (simp add: gen_equiv_def Let_def)

lemma shuffle_loop_equiv:
  "i < 256 \<Longrightarrow> gen_equiv e e' \<Longrightarrow> gen_equiv (shuffle_loop i e) (shuffle_loop i e')"
proof (induction i e arbitrary: e' rule: shuffle_loop.induct)
  case (1 i e)
  show ?case
  proof (cases "0 < i")
    case False
    then show ?thesis using 1(3) by (simp add: shuffle_loop.simps)
  next
    case True
    obtain r e1 where pn: "prng_next e = (r, e1)" by (cases "prng_next e")
    obtain r' e1' where pn': "prng_next e' = (r', e1')" by (cases "prng_next e'")
    have rr: "r' = r" and g1: "gen_equiv e1 e1'"
      using prng_next_equiv [OF 1(3)] pn pn' by simp_all
    define j where "j = unat (r mod of_nat (i + 1))"
    define p2 where "p2 = (perm e1)[i := perm e1 ! j, j := perm e1 ! i]"
    define p2' where "p2' = (perm e1')[i := perm e1' ! j, j := perm e1' ! i]"
    have jle: "j \<le> i" unfolding j_def using unat_draw [of i r] 1(2) by simp
    have l: "length (perm e1) = 512" "length (perm e1') = 512"
      "take 256 (perm e1) = take 256 (perm e1')"
      using g1 by (simp_all add: gen_equiv_def Let_def)
    have t: "take 256 p2 = take 256 p2'"
      unfolding p2_def p2'_def
      using take_swap [of i 256 j "perm e1"] take_swap [of i 256 j "perm e1'"] jle 1(2) l
      by simp
    have g2: "gen_equiv (e1\<lparr>perm := p2\<rparr>) (e1'\<lparr>perm := p2'\<rparr>)"
      using gen_equiv_perm_update [OF g1 _ _ t] l by (simp add: p2_def p2'_def)
    have step: "shuffle_loop i e = shuffle_loop (i - 1) (e1\<lparr>perm := p2\<rparr>)"
      using True pn by (subst shuffle_loop.simps) (simp add: Let_def j_def p2_def)
    have step': "shuffle_loop i e' = shuffle_loop (i - 1) (e1'\<lparr>perm := p2'\<rparr>)"
      using True pn' rr by (subst shuffle_loop.simps) (simp add: Let_def j_def p2'_def)
    note IH = 1(1) [OF True pn [symmetric] refl refl refl refl refl]
    have "gen_equiv (shuffle_loop (i - 1) (e1\<lparr>perm := p2\<rparr>))
            (shuffle_loop (i - 1) (e1'\<lparr>perm := p2'\<rparr>))"
      using IH [of "e1'\<lparr>perm := p2'\<rparr>"] 1(2) g2 by (simp add: j_def p2_def)
    then show ?thesis using step step' by simp
  qed
qed

lemma mersenne_init_loop_cong:
  "length st = 624 \<Longrightarrow> length st' = 624 \<Longrightarrow> 1 \<le> i \<Longrightarrow> take i st = take i st' \<Longrightarrow>
   mersenne_init_loop i st = mersenne_init_loop i st'"
proof (induction i st arbitrary: st' rule: mersenne_init_loop.induct)
  case (1 i st)
  show ?case
  proof (cases "i < 624")
    case False
    then have "st = st'" using 1(2,3,5) by simp
    then show ?thesis by simp
  next
    case True
    let ?f = "\<lambda>s :: u32 list. (1812433253 * (s ! (i - 1) XOR drop_bit 30 (s ! (i - 1))) + of_nat i)
                 AND 0xFFFFFFFF"
    have "st ! (i - 1) = take i st ! (i - 1)" "st' ! (i - 1) = take i st' ! (i - 1)"
      using 1(4) by simp_all
    then have v: "?f st = ?f st'" using 1(5) by simp
    have "take (i + 1) (st[i := ?f st]) = take i st @ [?f st]"
      using True 1(2) by (simp add: take_Suc_conv_app_nth)
    moreover have "take (i + 1) (st'[i := ?f st']) = take i st' @ [?f st']"
      using True 1(3) by (simp add: take_Suc_conv_app_nth)
    ultimately have t: "take (i + 1) (st[i := ?f st]) = take (i + 1) (st'[i := ?f st'])"
      using v 1(5) by simp
    have "mersenne_init_loop (i + 1) (st[i := ?f st]) = mersenne_init_loop (i + 1) (st'[i := ?f st'])"
      using 1(1) [OF True _ _ _ t] 1(2,3) by simp
    then show ?thesis
      using True by (subst (1 2) mersenne_init_loop.simps) simp
  qed
qed

lemma mersenne_init_cong:
  "length st = 624 \<Longrightarrow> length st' = 624 \<Longrightarrow>
   mersenne_init_loop 1 (st[0 := s]) = mersenne_init_loop 1 (st'[0 := s])"
proof -
  assume a: "length st = 624" "length st' = 624"
  then have "take 1 (st[0 := s]) = take 1 (st'[0 := s])"
    by (cases st; cases st') simp_all
  then show ?thesis using mersenne_init_loop_cong [of "st[0 := s]" "st'[0 := s]" 1] a by simp
qed

lemma xorshift_init_cong:
  "length (xs :: u64 list) = 4 \<Longrightarrow> xs[0 := a, 1 := b, 2 := c, 3 := d] = [a, b, c, d]"
  by (rule nth_equalityI) (auto simp: nth_list_update nth_Cons' less_Suc_eq numeral_eq_Suc)

lemma prng_init_equiv:
  assumes "wf_engine e" "wf_engine e'"
    and "cfg_prng_type (global_config e) = cfg_prng_type (global_config e')"
  shows "gen_equiv ((prng_init s e)\<lparr>perm := perm_identity_loop 0 (perm (prng_init s e))\<rparr>)
                   ((prng_init s e')\<lparr>perm := perm_identity_loop 0 (perm (prng_init s e'))\<rparr>)"
proof -
  have l: "length (perm e) = 512" "length (perm e') = 512"
    "length (mersenne_state (prng_state e)) = 624" "length (mersenne_state (prng_state e')) = 624"
    "length (xorshift_state (prng_state e)) = 4" "length (xorshift_state (prng_state e')) = 4"
    using assms by (simp_all add: wf_engine_def)
  have t: "take 256 (perm_identity_loop 0 (perm e)) = take 256 (perm_identity_loop 0 (perm e'))"
    using l by (simp add: take_perm_identity_loop del: upt.simps map_upt_Suc)
  have x: "(xorshift_state (prng_state e))[0 := a, 1 := b, 2 := c, 3 := d] =
           (xorshift_state (prng_state e'))[0 := a, 1 := b, 2 := c, 3 := d]" for a b c d
    using xorshift_init_cong [OF l(5)] xorshift_init_cong [OF l(6)] by simp
  show ?thesis
    using assms(3) l t mersenne_init_cong [OF l(3,4), of s] x
    by (simp add: gen_equiv_def prng_init_def Let_def length_perm_identity_loop
        mersenne_init_def xorshift_init_def pcg_init_def pcg_next_def
        SIMPLEX_PRG_LINEAR_CONGRUENTIAL_def SIMPLEX_PRG_MERSENNE_TWISTER_def
        SIMPLEX_PRG_XORSHIFT_def SIMPLEX_PRG_PCG_def)
qed

lemma perm_duplicate_loop_cong:
  assumes "length p = 512" "length p' = 512" "take 256 p = take 256 p'"
  shows "perm_duplicate_loop 0 p = perm_duplicate_loop 0 p'"
proof (rule nth_equalityI)
  show "length (perm_duplicate_loop 0 p) = length (perm_duplicate_loop 0 p')"
    using assms by (simp add: length_perm_duplicate_loop)
next
  fix k
  assume "k < length (perm_duplicate_loop 0 p)"
  then have k: "k < 512" using assms by (simp add: length_perm_duplicate_loop)
  have low: "p ! m = p' ! m" if "m < 256" for m
  proof -
    have "take 256 p ! m = take 256 p' ! m" using assms(3) by simp
    then show ?thesis using that by simp
  qed
  show "perm_duplicate_loop 0 p ! k = perm_duplicate_loop 0 p' ! k"
    using k assms low by (simp add: nth_perm_duplicate_loop)
qed

lemma perm_init_deterministic:
  assumes "wf_engine e" "wf_engine e'"
    and "cfg_prng_type c = cfg_prng_type c'"
    and "effective_seed c now = effective_seed c' now'"
  shows "perm (snd (simplex_noise_init_advanced (Some c) now e)) =
         perm (snd (simplex_noise_init_advanced (Some c') now' e'))"
proof -
  define s where "s = effective_seed c now"
  define e2 where "e2 = e\<lparr>global_config := c\<lparr>cfg_seed := s\<rparr>\<rparr>"
  define e2' where "e2' = e'\<lparr>global_config := c'\<lparr>cfg_seed := s\<rparr>\<rparr>"
  define e4 where "e4 = (prng_init s e2)\<lparr>perm := perm_identity_loop 0 (perm (prng_init s e2))\<rparr>"
  define e4' where "e4' = (prng_init s e2')\<lparr>perm := perm_identity_loop 0 (perm (prng_init s e2'))\<rparr>"
  have w: "wf_engine e2" "wf_engine e2'"
    using assms(1,2) by (simp_all add: wf_engine_def e2_def e2'_def)
  have "gen_equiv e4 e4'"
    unfolding e4_def e4'_def using prng_init_equiv [OF w, of s] assms(3)
    by (simp add: e2_def e2'_def)
  then have g5: "gen_equiv (shuffle_loop 255 e4) (shuffle_loop 255 e4')"
    using shuffle_loop_equiv [of 255 e4 e4'] by simp
  have p: "perm (snd (simplex_noise_init_advanced (Some c) now e)) =
        perm_duplicate_loop 0 (perm (shuffle_loop 255 e4))"
    by (simp add: simplex_noise_init_advanced_def Let_def e4_def e2_def s_def effective_seed_def)
  have p': "perm (snd (simplex_noise_init_advanced (Some c') now' e')) =
        perm_duplicate_loop 0 (perm (shuffle_loop 255 e4'))"
    using assms(4)
    by (simp add: simplex_noise_init_advanced_def Let_def e4'_def e2'_def s_def effective_seed_def)
  show ?thesis
    unfolding p p' using g5 perm_duplicate_loop_cong [of "perm (shuffle_loop 255 e4)" "perm (shuffle_loop 255 e4')"]
    by (simp add: gen_equiv_def Let_def)
qed

lemma lazy_init_equiv:
  assumes "same_noise e e'" "now = now' \<or> initialized e \<noteq> 0"
  shows "initialized (lazy_init now e) \<noteq> 0 \<and> initialized (lazy_init now' e') \<noteq> 0 \<and>
         perm (lazy_init now e) = perm (lazy_init now' e') \<and>
         same_noise (lazy_init now e) (lazy_init now' e')"
proof (cases "initialized e = 0")
  case False
  then show ?thesis using assms(1) by (simp add: same_noise_def lazy_init_def)
next
  case True
  then have u: "initialized e' = 0" "wf_engine e" "wf_engine e'" "now = now'"
    using assms by (simp_all add: same_noise_def)
  have "perm (lazy_init now e) = perm (lazy_init now' e')"
    using True u perm_init_deterministic [OF u(2,3), of
        "simplex_get_default_config\<lparr>cfg_seed := 0\<rparr>" "simplex_get_default_config\<lparr>cfg_seed := 0\<rparr>" now now']
    by (simp add: lazy_init_def simplex_noise_init_def Let_def)
  then show ?thesis
    using initialized_lazy_init [of now e] initialized_lazy_init [of now' e']
    by (simp add: same_noise_def)
qed

lemma same_noise_initialized:
  "initialized e \<noteq> 0 \<Longrightarrow> initialized e' \<noteq> 0 \<Longrightarrow> perm e = perm e' \<Longrightarrow> same_noise e e'"
  by (simp add: same_noise_def)

lemma call_equivI:
  "(\<And>now now' e e'. same_noise e e' \<Longrightarrow> now = now' \<or> initialized e \<noteq> 0 \<Longrightarrow>
      fst (f now e) = fst (f now' e') \<and>
      same_noise (snd (f now e)) (snd (f now' e')) \<and>
      (initialized e \<noteq> 0 \<longrightarrow> snd (f now e) = e)) \<Longrightarrow> call_equiv f"
  unfolding call_equiv_def by blast

lemma call_equivD:
  "call_equiv f \<Longrightarrow> same_noise e e' \<Longrightarrow> now = now' \<or> initialized e \<noteq> 0 \<Longrightarrow>
      fst (f now e) = fst (f now' e') \<and>
      same_noise (snd (f now e)) (snd (f now' e')) \<and>
      (initialized e \<noteq> 0 \<longrightarrow> snd (f now e) = e)"
  unfolding call_equiv_def by blast

lemma noise_1d_equiv: "call_equiv (\<lambda>now. simplex_noise_1d now x)"
  by (rule call_equivI) (use lazy_init_equiv lazy_init_id in \<open>auto simp: simplex_noise_1d_def Let_def\<close>)

lemma noise_2d_equiv: "call_equiv (\<lambda>now. simplex_noise_2d now x y)"
  by (rule call_equivI) (use lazy_init_equiv lazy_init_id in \<open>auto simp: simplex_noise_2d_def Let_def\<close>)

lemma noise_3d_equiv: "call_equiv (\<lambda>now. simplex_noise_3d now x y z)"
  by (rule call_equivI) (use lazy_init_equiv lazy_init_id in \<open>auto simp: simplex_noise_3d_def Let_def\<close>)

lemma noise_4d_equiv: "call_equiv (\<lambda>now. simplex_noise_4d now x y z w)"
  by (rule call_equivI) (use lazy_init_equiv lazy_init_id in \<open>auto simp: simplex_noise_4d_def Let_def\<close>)

lemma variants_equiv:
  "call_equiv (\<lambda>now. simplex_ridged_1d now x)"
  "call_equiv (\<lambda>now. simplex_ridged_2d now x y)"
  "call_equiv (\<lambda>now. simplex_ridged_3d now x y z)"
  "call_equiv (\<lambda>now. simplex_billowy_1d now x)"
  "call_equiv (\<lambda>now. simplex_billowy_2d now x y)"
  "call_equiv (\<lambda>now. simplex_billowy_3d now x y z)"
proof -
  have k: "fst (simplex_noise_1d now x e) = fst (simplex_noise_1d now' x e') \<and>
      same_noise (snd (simplex_noise_1d now x e)) (snd (simplex_noise_1d now' x e')) \<and>
      (initialized e \<noteq> 0 \<longrightarrow> snd (simplex_noise_1d now x e) = e)"
    "fst (simplex_noise_2d now x y e) = fst (simplex_noise_2d now' x y e') \<and>
      same_noise (snd (simplex_noise_2d now x y e)) (snd (simplex_noise_2d now' x y e')) \<and>
      (initialized e \<noteq> 0 \<longrightarrow> snd (simplex_noise_2d now x y e) = e)"
    "fst (simplex_noise_3d now x y z e) = fst (simplex_noise_3d now' x y z e') \<and>
      same_noise (snd (simplex_noise_3d now x y z e)) (snd (simplex_noise_3d now' x y z e')) \<and>
      (initialized e \<noteq> 0 \<longrightarrow> snd (simplex_noise_3d now x y z e) = e)"
    if "same_noise e e'" "now = now' \<or> initialized e \<noteq> 0" for now now' e e'
    using call_equivD [OF noise_1d_equiv that] call_equivD [OF noise_2d_equiv that]
      call_equivD [OF noise_3d_equiv that] by simp_all
  show "call_equiv (\<lambda>now. simplex_ridged_1d now x)"
    by (rule call_equivI) (use k(1) in \<open>simp add: simplex_ridged_1d_def case_prod_beta\<close>)
  show "call_equiv (\<lambda>now. simplex_ridged_2d now x y)"
    by (rule call_equivI) (use k(2) in \<open>simp add: simplex_ridged_2d_def case_prod_beta\<close>)
  show "call_equiv (\<lambda>now. simplex_ridged_3d now x y z)"
    by (rule call_equivI) (use k(3) in \<open>simp add: simplex_ridged_3d_def case_prod_beta\<close>)
  show "call_equiv (\<lambda>now. simplex_billowy_1d now x)"
    by (rule call_equivI) (use k(1) in \<open>simp add: simplex_billowy_1d_def case_prod_beta\<close>)
  show "call_equiv (\<lambda>now. simplex_billowy_2d now x y)"
    by (rule call_equivI) (use k(2) in \<open>simp add: simplex_billowy_2d_def case_prod_beta\<close>)
  show "call_equiv (\<lambda>now. simplex_billowy_3d now x y z)"
    by (rule call_equivI) (use k(3) in \<open>simp add: simplex_billowy_3d_def case_prod_beta\<close>)
qed

lemma fbm_2d_loop_equiv:
  "same_noise e e' \<Longrightarrow> now = now' \<or> initialized e \<noteq> 0 \<Longrightarrow>
   fst (simplex_fbm_2d_loop now x y octaves persistence lacunarity i st e) =
   fst (simplex_fbm_2d_loop now' x y octaves persistence lacunarity i st e') \<and>
   same_noise (snd (simplex_fbm_2d_loop now x y octaves persistence lacunarity i st e))
              (snd (simplex_fbm_2d_loop now' x y octaves persistence lacunarity i st e')) \<and>
   (initialized e \<noteq> 0 \<longrightarrow> snd (simplex_fbm_2d_loop now x y octaves persistence lacunarity i st e) = e)"
proof (induction now x y octaves persistence lacunarity i st e arbitrary: e'
    rule: simplex_fbm_2d_loop.induct)
  case (1 now x y octaves persistence lacunarity i v a f m e)
  show ?case
  proof (cases "c_lt i octaves")
    case False
    then show ?thesis using 1(2) by (simp add: simplex_fbm_2d_loop.simps)
  next
    case True
    let ?e1 = "lazy_init now e" and ?e1' = "lazy_init now' e'"
    let ?n = "noise_2d_body (perm ?e1) (fmul x f) (fmul y f)"
    let ?st = "(fadd v (fmul ?n a), fmul a persistence, fmul f lacunarity, fadd m a)"
    note le = lazy_init_equiv [OF 1(2,3)]
    have k: "simplex_noise_2d now (fmul x f) (fmul y f) e = (?n, ?e1)"
      by (simp add: simplex_noise_2d_def Let_def)
    have k': "simplex_noise_2d now' (fmul x f) (fmul y f) e' = (?n, ?e1')"
      using le by (simp add: simplex_noise_2d_def Let_def)
    have s: "simplex_fbm_2d_loop now x y octaves persistence lacunarity i (v, a, f, m) e =
             simplex_fbm_2d_loop now x y octaves persistence lacunarity (i + 1) ?st ?e1"
      using True k by (simp add: simplex_fbm_2d_loop.simps [of _ _ _ _ _ _ i])
    have s': "simplex_fbm_2d_loop now' x y octaves persistence lacunarity i (v, a, f, m) e' =
             simplex_fbm_2d_loop now' x y octaves persistence lacunarity (i + 1) ?st ?e1'"
      using True k' by (simp add: simplex_fbm_2d_loop.simps [of _ _ _ _ _ _ i])
    show ?thesis
      unfolding s s' using 1(1) [OF True k [symmetric], of ?e1'] le by (auto simp: lazy_init_id)
  qed
qed

lemma fbm_3d_loop_equiv:
  "same_noise e e' \<Longrightarrow> now = now' \<or> initialized e \<noteq> 0 \<Longrightarrow>
   fst (simplex_fbm_3d_loop now x y z octaves persistence lacunarity i st e) =
   fst (simplex_fbm_3d_loop now' x y z octaves persistence lacunarity i st e') \<and>
   same_noise (snd (simplex_fbm_3d_loop now x y z octaves persistence lacunarity i st e))
              (snd (simplex_fbm_3d_loop now' x y z octaves persistence lacunarity i st e')) \<and>
   (initialized e \<noteq> 0 \<longrightarrow> snd (simplex_fbm_3d_loop now x y z octaves persistence lacunarity i st e) = e)"
proof (induction now x y z octaves persistence lacunarity i st e arbitrary: e'
    rule: simplex_fbm_3d_loop.induct)
  case (1 now x y z octaves persistence lacunarity i v a f m e)
  show ?case
  proof (cases "c_lt i octaves")
    case False
    then show ?thesis using 1(2) by (simp add: simplex_fbm_3d_loop.simps)
  next
    case True
    let ?e1 = "lazy_init now e" and ?e1' = "lazy_init now' e'"
    let ?n = "noise_3d_body (perm ?e1) (fmul x f) (fmul y f) (fmul z f)"
    let ?st = "(fadd v (fmul ?n a), fmul a persistence, fmul f lacunarity, fadd m a)"
    note le = lazy_init_equiv [OF 1(2,3)]
    have k: "simplex_noise_3d now (fmul x f) (fmul y f) (fmul z f) e = (?n, ?e1)"
      by (simp add: simplex_noise_3d_def Let_def)
    have k': "simplex_noise_3d now' (fmul x f) (fmul y f) (fmul z f) e' = (?n, ?e1')"
      using le by (simp add: simplex_noise_3d_def Let_def)
    have s: "simplex_fbm_3d_loop now x y z octaves persistence lacunarity i (v, a, f, m) e =
             simplex_fbm_3d_loop now x y z octaves persistence lacunarity (i + 1) ?st ?e1"
      using True k by (simp add: simplex_fbm_3d_loop.simps [of _ _ _ _ _ _ _ i])
    have s': "simplex_fbm_3d_loop now' x y z octaves persistence lacunarity i (v, a, f, m) e' =
             simplex_fbm_3d_loop now' x y z octaves persistence lacunarity (i + 1) ?st ?e1'"
      using True k' by (simp add: simplex_fbm_3d_loop.simps [of _ _ _ _ _ _ _ i])
    show ?thesis
      unfolding s s' using 1(1) [OF True k [symmetric], of ?e1'] le by (auto simp: lazy_init_id)
  qed
qed

lemma hybrid_loop_equiv:
  "same_noise e e' \<Longrightarrow> now = now' \<or> initialized e \<noteq> 0 \<Longrightarrow>
   fst (simplex_hybrid_multifractal_2d_loop now x y octaves persistence lacunarity offset i st e) =
   fst (simplex_hybrid_multifractal_2d_loop now' x y octaves persistence lacunarity offset i st e') \<and>
   same_noise
     (snd (simplex_hybrid_multifractal_2d_loop now x y octaves persistence lacunarity offset i st e))
     (snd (simplex_hybrid_multifractal_2d_loop now' x y octaves persistence lacunarity offset i st e')) \<and>
   (initialized e \<noteq> 0 \<longrightarrow> snd (simplex_hybrid_multifractal_2d_loop now x y octaves persistence lacunarity
                          offset i st e) = e)"
proof (induction now x y octaves persistence lacunarity offset i st e arbitrary: e'
    rule: simplex_hybrid_multifractal_2d_loop.induct)
  case (1 now x y octaves persistence lacunarity offset i v a f e)
  show ?case
  proof (cases "c_lt i octaves")
    case False
    then show ?thesis using 1(2) by (simp add: simplex_hybrid_multifractal_2d_loop.simps)
  next
    case True
    let ?e1 = "lazy_init now e" and ?e1' = "lazy_init now' e'"
    let ?n = "noise_2d_body (perm ?e1) (fmul x f) (fmul y f)"
    let ?st = "(fmul v (fmul (fadd offset (fabs ?n)) a), fmul a persistence, fmul f lacunarity)"
    note le = lazy_init_equiv [OF 1(2,3)]
    have k: "simplex_noise_2d now (fmul x f) (fmul y f) e = (?n, ?e1)"
      by (simp add: simplex_noise_2d_def Let_def)
    have k': "simplex_noise_2d now' (fmul x f) (fmul y f) e' = (?n, ?e1')"
      using le by (simp add: simplex_noise_2d_def Let_def)
    have s: "simplex_hybrid_multifractal_2d_loop now x y octaves persistence lacunarity offset i
               (v, a, f) e =
             simplex_hybrid_multifractal_2d_loop now x y octaves persistence lacunarity offset
               (i + 1) ?st ?e1"
      using True k by (simp add: simplex_hybrid_multifractal_2d_loop.simps [of _ _ _ _ _ _ _ i])
    have s': "simplex_hybrid_multifractal_2d_loop now' x y octaves persistence lacunarity offset i
               (v, a, f) e' =
             simplex_hybrid_multifractal_2d_loop now' x y octaves persistence lacunarity offset
               (i + 1) ?st ?e1'"
      using True k' by (simp add: simplex_hybrid_multifractal_2d_loop.simps [of _ _ _ _ _ _ _ i])
    show ?thesis
      unfolding s s' using 1(1) [OF True k [symmetric], of ?e1'] le by (auto simp: lazy_init_id)
  qed
qed

lemma sums_equiv:
  "call_equiv (\<lambda>now. simplex_fbm_2d now x y octaves persistence lacunarity)"
  "call_equiv (\<lambda>now. simplex_fbm_3d now x y z octaves persistence lacunarity)"
  "call_equiv (\<lambda>now. simplex_hybrid_multifractal_2d now x y octaves persistence lacunarity offset)"
  "call_equiv (\<lambda>now. simplex_fractal_2d now x y octaves persistence lacunarity)"
  "call_equiv (\<lambda>now. simplex_fractal_3d now x y z octaves persistence lacunarity)"
proof -
  show a: "call_equiv (\<lambda>now. simplex_fbm_2d now x y octaves persistence lacunarity)"
  proof (rule call_equivI)
    fix now now' :: u64 and e e' :: engine
    assume h: "same_noise e e'" "now = now' \<or> initialized e \<noteq> 0"
    show "fst (simplex_fbm_2d now x y octaves persistence lacunarity e) =
          fst (simplex_fbm_2d now' x y octaves persistence lacunarity e') \<and>
          same_noise (snd (simplex_fbm_2d now x y octaves persistence lacunarity e))
                     (snd (simplex_fbm_2d now' x y octaves persistence lacunarity e')) \<and>
          (initialized e \<noteq> 0 \<longrightarrow> snd (simplex_fbm_2d now x y octaves persistence lacunarity e) = e)"
      using fbm_2d_loop_equiv [OF h, of x y octaves persistence lacunarity 0
          "(d_lit 0 1, d_lit 1 1, d_lit 1 1, d_lit 0 1)"]
      by (auto simp: simplex_fbm_2d_def split: prod.splits simp del: One_nat_def)
  qed
  show b: "call_equiv (\<lambda>now. simplex_fbm_3d now x y z octaves persistence lacunarity)"
  proof (rule call_equivI)
    fix now now' :: u64 and e e' :: engine
    assume h: "same_noise e e'" "now = now' \<or> initialized e \<noteq> 0"
    show "fst (simplex_fbm_3d now x y z octaves persistence lacunarity e) =
          fst (simplex_fbm_3d now' x y z octaves persistence lacunarity e') \<and>
          same_noise (snd (simplex_fbm_3d now x y z octaves persistence lacunarity e))
                     (snd (simplex_fbm_3d now' x y z octaves persistence lacunarity e')) \<and>
          (initialized e \<noteq> 0 \<longrightarrow> snd (simplex_fbm_3d now x y z octaves persistence lacunarity e) = e)"
      using fbm_3d_loop_equiv [OF h, of x y z octaves persistence lacunarity 0
          "(d_lit 0 1, d_lit 1 1, d_lit 1 1, d_lit 0 1)"]
      by (auto simp: simplex_fbm_3d_def split: prod.splits simp del: One_nat_def)
  qed
  show "call_equiv (\<lambda>now. simplex_hybrid_multifractal_2d now x y octaves persistence lacunarity offset)"
  proof (rule call_equivI)
    fix now now' :: u64 and e e' :: engine
    assume h: "same_noise e e'" "now = now' \<or> initialized e \<noteq> 0"
    show "fst (simplex_hybrid_multifractal_2d now x y octaves persistence lacunarity offset e) =
          fst (simplex_hybrid_multifractal_2d now' x y octaves persistence lacunarity offset e') \<and>
          same_noise (snd (simplex_hybrid_multifractal_2d now x y octaves persistence lacunarity offset e))
                     (snd (simplex_hybrid_multifractal_2d now' x y octaves persistence lacunarity offset e')) \<and>
          (initialized e \<noteq> 0 \<longrightarrow> snd (simplex_hybrid_multifractal_2d now x y octaves persistence lacunarity
                                 offset e) = e)"
      using hybrid_loop_equiv [OF h, of x y octaves persistence lacunarity offset 0
          "(d_lit 1 1, d_lit 1 1, d_lit 1 1)"]
      by (auto simp: simplex_hybrid_multifractal_2d_def split: prod.splits simp del: One_nat_def)
  qed
  have "simplex_fractal_2d = simplex_fbm_2d"
    by (intro ext) (simp add: simplex_fractal_2d_def simplex_fbm_2d_def fractal_2d_loop_eq)
  then show "call_equiv (\<lambda>now. simplex_fractal_2d now x y octaves persistence lacunarity)"
    using a by simp
  have "simplex_fractal_3d = simplex_fbm_3d"
    by (intro ext) (simp add: simplex_fractal_3d_def simplex_fbm_3d_def fractal_3d_loop_eq)
  then show "call_equiv (\<lambda>now. simplex_fractal_3d now x y z octaves persistence lacunarity)"
    using b by simp
qed

lemma domain_warp_equiv: "call_equiv (\<lambda>now. simplex_domain_warp_2d now x y warp_strength)"
proof (rule call_equivI)
  fix now now' :: u64 and e e' :: engine
  assume h: "same_noise e e'" "now = now' \<or> initialized e \<noteq> 0"
  let ?e1 = "lazy_init now e" and ?e1' = "lazy_init now' e'"
  note le = lazy_init_equiv [OF h]
  have id: "lazy_init now ?e1 = ?e1" "lazy_init now' ?e1' = ?e1'"
    by (simp_all add: lazy_init_idem)
  show "fst (simplex_domain_warp_2d now x y warp_strength e) =
        fst (simplex_domain_warp_2d now' x y warp_strength e') \<and>
        same_noise (snd (simplex_domain_warp_2d now x y warp_strength e))
                   (snd (simplex_domain_warp_2d now' x y warp_strength e')) \<and>
        (initialized e \<noteq> 0 \<longrightarrow> snd (simplex_domain_warp_2d now x y warp_strength e) = e)"
    using le by (auto simp add: simplex_domain_warp_2d_def simplex_noise_2d_def Let_def id lazy_init_id)
qed

lemma sample_equiv: "call_equiv (\<lambda>now. sample now q)"
proof (rule call_equivI)
  fix now now' :: u64 and e e' :: engine
  assume h: "same_noise e e'" "now = now' \<or> initialized e \<noteq> 0"
  show "fst (sample now q e) = fst (sample now' q e') \<and>
        same_noise (snd (sample now q e)) (snd (sample now' q e')) \<and>
        (initialized e \<noteq> 0 \<longrightarrow> snd (sample now q e) = e)"
  proof (cases q)
    case (Noise_1d x)
    then show ?thesis using call_equivD [OF noise_1d_equiv h] by simp
  next
    case (Noise_2d x y)
    then show ?thesis using call_equivD [OF noise_2d_equiv h] by simp
  next
    case (Noise_3d x y z)
    then show ?thesis using call_equivD [OF noise_3d_equiv h] by simp
  next
    case (Noise_4d x y z w)
    then show ?thesis using call_equivD [OF noise_4d_equiv h] by simp
  next
    case (Ridged_1d x)
    then show ?thesis using call_equivD [OF variants_equiv(1) h] by simp
  next
    case (Ridged_2d x y)
    then show ?thesis using call_equivD [OF variants_equiv(2) h] by simp
  next
    case (Ridged_3d x y z)
    then show ?thesis using call_equivD [OF variants_equiv(3) h] by simp
  next
    case (Billowy_1d x)
    then show ?thesis using call_equivD [OF variants_equiv(4) h] by simp
  next
    case (Billowy_2d x y)
    then show ?thesis using call_equivD [OF variants_equiv(5) h] by simp
  next
    case (Billowy_3d x y z)
    then show ?thesis using call_equivD [OF variants_equiv(6) h] by simp
  next
    case (Fbm_2d x y octaves persistence lacunarity)
    then show ?thesis using call_equivD [OF sums_equiv(1) h] by simp
  next
    case (Fbm_3d x y z octaves persistence lacunarity)
    then show ?thesis using call_equivD [OF sums_equiv(2) h] by simp
  next
    case (Hybrid_multifractal_2d x y octaves persistence lacunarity offset)
    then show ?thesis using call_equivD [OF sums_equiv(3) h] by simp
  next
    case (Domain_warp_2d x y warp_strength)
    then show ?thesis using call_equivD [OF domain_warp_equiv h] by simp
  next
    case (Fractal_2d x y octaves persistence lacunarity)
    then show ?thesis using call_equivD [OF sums_equiv(4) h] by simp
  next
    case (Fractal_3d x y z octaves persistence lacunarity)
    then show ?thesis using call_equivD [OF sums_equiv(5) h] by simp
  qed
qed

lemma fst_sample_seq_Cons:
  "fst (sample_seq ((now, q) # qs) e) =
   fst (sample now q e) # fst (sample_seq qs (snd (sample now q e)))"
  by (simp split: prod.splits)

lemma sample_seq_equiv_initialized:
  "same_noise e e' \<Longrightarrow> initialized e \<noteq> 0 \<Longrightarrow> map snd qa = map snd qb \<Longrightarrow>
   fst (sample_seq qa e) = fst (sample_seq qb e')"
proof (induction qa arbitrary: qb e e')
  case Nil
  then show ?case by simp
next
  case (Cons a qa)
  obtain now q where a: "a = (now, q)" by (cases a)
  obtain now' qb' where b: "qb = (now', q) # qb'" "map snd qa = map snd qb'"
    using Cons(4) a by (cases qb) auto
  note s = call_equivD [OF sample_equiv Cons(2), of now now' q] Cons(3)
  have "fst (sample_seq qa (snd (sample now q e))) = fst (sample_seq qb' (snd (sample now' q e')))"
    using Cons(1) [OF _ _ b(2)] s by auto
  then show ?case using s unfolding a b fst_sample_seq_Cons by simp
qed

lemma sample_seq_equiv_same_clock:
  "same_noise e e' \<Longrightarrow> fst (sample_seq qs e) = fst (sample_seq qs e')"
proof (induction qs arbitrary: e e')
  case Nil
  then show ?case by simp
next
  case (Cons a qs)
  obtain now q where a: "a = (now, q)" by (cases a)
  note s = call_equivD [OF sample_equiv Cons(2), of now now q]
  have "fst (sample_seq qs (snd (sample now q e))) = fst (sample_seq qs (snd (sample now q e')))"
    using Cons(1) s by simp
  then show ?case using s unfolding a fst_sample_seq_Cons by simp
qed


lemma sample_seq_state:
  "initialized e \<noteq> 0 \<Longrightarrow> snd (sample_seq qs e) = e"
proof (induction qs)
  case Nil
  then show ?case by simp
next
  case (Cons a qs)
  obtain now q where a: "a = (now, q)" by (cases a)
  have "same_noise e e" using Cons(2) by (simp add: same_noise_def)
  then have "snd (sample now q e) = e"
    using call_equivD [OF sample_equiv, of e e now now q] Cons(2) by simp
  then show ?case using Cons by (simp add: a case_prod_beta)
qed

lemma wf_engine_zero: "wf_engine engine_zero"
  by (simp add: wf_engine_def engine_zero_def CACHE_SIZE_def)

text \<open>
  Claim C1. Two runs that initialise with the same nonzero seed and the same generator
  selector (through \<^verbatim>\<open>simplex_noise_init_advanced\<close>, whatever the other fields of the two
  configurations, or through \<^verbatim>\<open>simplex_noise_init\<close>) and then make the same sequence of
  kernel and composer calls return the same doubles, bit for bit, whatever the states
  before the two initialisations and whatever the clock reads during the two runs.
\<close>

theorem init_and_sample_deterministic:
  assumes "wf_engine ea" "wf_engine eb"
    and "cfg_seed c \<noteq> 0" "cfg_seed c' = cfg_seed c" "cfg_prng_type c' = cfg_prng_type c"
    and "seed \<noteq> 0"
    and "map snd qa = map snd qb"
  shows "fst (sample_seq qa (snd (simplex_noise_init_advanced (Some c) nowa ea))) =
         fst (sample_seq qb (snd (simplex_noise_init_advanced (Some c') nowb eb))) \<and>
         fst (sample_seq qa (simplex_noise_init seed nowa ea)) =
         fst (sample_seq qb (simplex_noise_init seed nowb eb))"
proof
  let ?a = "snd (simplex_noise_init_advanced (Some c) nowa ea)"
  let ?b = "snd (simplex_noise_init_advanced (Some c') nowb eb)"
  have "perm ?a = perm ?b"
    using perm_init_deterministic [OF assms(1,2), of c c' nowa nowb] assms(3,4,5)
    by (simp add: effective_seed_def)
  then have "same_noise ?a ?b"
    by (simp add: same_noise_def initialized_after_init)
  then show "fst (sample_seq qa ?a) = fst (sample_seq qb ?b)"
    using sample_seq_equiv_initialized [OF _ _ assms(7)] by (simp add: initialized_after_init)
next
  let ?c = "simplex_get_default_config\<lparr>cfg_seed := seed\<rparr>"
  let ?a = "snd (simplex_noise_init_advanced (Some ?c) nowa ea)"
  let ?b = "snd (simplex_noise_init_advanced (Some ?c) nowb eb)"
  have "perm ?a = perm ?b"
    using perm_init_deterministic [OF assms(1,2), of ?c ?c nowa nowb] assms(6)
    by (simp add: effective_seed_def)
  then have "same_noise ?a ?b"
    by (simp add: same_noise_def initialized_after_init)
  then have "fst (sample_seq qa ?a) = fst (sample_seq qb ?b)"
    using sample_seq_equiv_initialized [OF _ _ assms(7)] by (simp add: initialized_after_init)
  then show "fst (sample_seq qa (simplex_noise_init seed nowa ea)) =
             fst (sample_seq qb (simplex_noise_init seed nowb eb))"
    by (simp add: simplex_noise_init_def Let_def)
qed

text \<open>
  Claim C9. Initialising with two configurations that differ only in \<^verbatim>\<open>enable_caching\<close>
  gives the same results for every sequence of kernel and composer calls, and so does
  calling \<^verbatim>\<open>simplex_set_caching\<close> before the sequence; in an initialised state the calls
  leave the whole state, cache and counters included, as it was.
\<close>

theorem caching_flag_no_effect:
  assumes "wf_engine e"
  shows "fst (sample_seq qs (snd (simplex_noise_init_advanced (Some c) now e))) =
         fst (sample_seq qs (snd (simplex_noise_init_advanced
                                    (Some (c\<lparr>cfg_enable_caching := b\<rparr>)) now e))) \<and>
         fst (sample_seq qs (snd (simplex_set_caching b' e))) = fst (sample_seq qs e) \<and>
         (initialized e \<noteq> 0 \<longrightarrow> snd (sample_seq qs e) = e)"
proof (intro conjI)
  let ?a = "snd (simplex_noise_init_advanced (Some c) now e)"
  let ?b = "snd (simplex_noise_init_advanced (Some (c\<lparr>cfg_enable_caching := b\<rparr>)) now e)"
  have "perm ?a = perm ?b"
    using perm_init_deterministic [OF assms assms, of c "c\<lparr>cfg_enable_caching := b\<rparr>" now now]
    by (simp add: effective_seed_def)
  then have "same_noise ?a ?b"
    by (simp add: same_noise_def initialized_after_init)
  then show "fst (sample_seq qs ?a) = fst (sample_seq qs ?b)"
    by (rule sample_seq_equiv_same_clock)
next
  have "same_noise (snd (simplex_set_caching b' e)) e"
    using assms by (simp add: same_noise_def simplex_set_caching_def wf_engine_def)
  then show "fst (sample_seq qs (snd (simplex_set_caching b' e))) = fst (sample_seq qs e)"
    by (rule sample_seq_equiv_same_clock)
next
  show "initialized e \<noteq> 0 \<longrightarrow> snd (sample_seq qs e) = e"
    by (simp add: sample_seq_state)
qed


theorem init_and_sample_deterministic_witness:
  "wf_engine engine_zero \<and>
   wf_engine (engine_zero\<lparr>initialized := 1, cache_enabled := 1\<rparr>) \<and>
   cfg_seed (simplex_get_default_config\<lparr>cfg_seed := 12345\<rparr>) \<noteq> 0 \<and>
   (12345 :: u32) \<noteq> 0 \<and>
   map snd [(0 :: u64, Noise_2d (d_lit 1 1) (d_lit 2 1)), (0, Fbm_2d (d_lit 1 1) (d_lit 2 1) 4 (d_lit 5 10) (d_lit 2 1))] =
   map snd [(7 :: u64, Noise_2d (d_lit 1 1) (d_lit 2 1)), (9, Fbm_2d (d_lit 1 1) (d_lit 2 1) 4 (d_lit 5 10) (d_lit 2 1))] \<and>
   fst (sample_seq [(0, Noise_2d (d_lit 1 1) (d_lit 2 1)), (0, Fbm_2d (d_lit 1 1) (d_lit 2 1) 4 (d_lit 5 10) (d_lit 2 1))]
          (snd (simplex_noise_init_advanced (Some (simplex_get_default_config\<lparr>cfg_seed := 12345\<rparr>)) 0
                  engine_zero))) =
   fst (sample_seq [(7, Noise_2d (d_lit 1 1) (d_lit 2 1)), (9, Fbm_2d (d_lit 1 1) (d_lit 2 1) 4 (d_lit 5 10) (d_lit 2 1))]
          (snd (simplex_noise_init_advanced (Some (simplex_get_default_config\<lparr>cfg_seed := 12345\<rparr>))
                  1700000000 (engine_zero\<lparr>initialized := 1, cache_enabled := 1\<rparr>)))) \<and>
   fst (sample_seq [(0, Noise_2d (d_lit 1 1) (d_lit 2 1)), (0, Fbm_2d (d_lit 1 1) (d_lit 2 1) 4 (d_lit 5 10) (d_lit 2 1))]
          (simplex_noise_init 12345 0 engine_zero)) =
   fst (sample_seq [(7, Noise_2d (d_lit 1 1) (d_lit 2 1)), (9, Fbm_2d (d_lit 1 1) (d_lit 2 1) 4 (d_lit 5 10) (d_lit 2 1))]
          (simplex_noise_init 12345 1700000000 (engine_zero\<lparr>initialized := 1, cache_enabled := 1\<rparr>)))"
proof -
  have w: "wf_engine engine_zero" "wf_engine (engine_zero\<lparr>initialized := 1, cache_enabled := 1\<rparr>)"
    by (simp_all add: wf_engine_def engine_zero_def CACHE_SIZE_def)
  have s: "cfg_seed (simplex_get_default_config\<lparr>cfg_seed := 12345\<rparr>) \<noteq> 0" "(12345 :: u32) \<noteq> 0"
    by simp_all
  have q: "map snd [(0 :: u64, Noise_2d (d_lit 1 1) (d_lit 2 1)), (0, Fbm_2d (d_lit 1 1) (d_lit 2 1) 4 (d_lit 5 10) (d_lit 2 1))] =
   map snd [(7 :: u64, Noise_2d (d_lit 1 1) (d_lit 2 1)), (9, Fbm_2d (d_lit 1 1) (d_lit 2 1) 4 (d_lit 5 10) (d_lit 2 1))]"
    by simp
  show ?thesis
    using w s q init_and_sample_deterministic [OF w s(1) refl refl s(2) q, of 0 1700000000]
    by blast
qed

lemma length_mersenne_init_loop: "length (mersenne_init_loop i st) = length st"
  by (induction i st rule: mersenne_init_loop.induct)
     (subst mersenne_init_loop.simps, simp)

lemma length_mersenne_generate_loop: "length (mersenne_generate_loop i st) = length st"
  by (induction i st rule: mersenne_generate_loop.induct)
     (subst mersenne_generate_loop.simps, simp add: Let_def)

lemma length_cache_clear_loop: "length (cache_clear_loop i c) = length c"
  by (induction i c rule: cache_clear_loop.induct)
     (subst cache_clear_loop.simps, simp)

lemma wf_prng_next: "wf_engine e \<Longrightarrow> wf_engine (snd (prng_next e))"
  by (auto simp: wf_engine_def prng_next_def Let_def lcg_next_def mersenne_next_def
      mersenne_generate_def xorshift_next_def pcg_next_def length_mersenne_generate_loop
      split: prod.splits)

lemma wf_prng_init: "wf_engine e \<Longrightarrow> wf_engine (prng_init s e)"
  by (auto simp: wf_engine_def prng_init_def Let_def mersenne_init_def xorshift_init_def
      pcg_init_def pcg_next_def length_mersenne_init_loop)

lemma wf_perm_update: "wf_engine e \<Longrightarrow> length p = 512 \<Longrightarrow> wf_engine (e\<lparr>perm := p\<rparr>)"
  by (simp add: wf_engine_def)

lemma wf_shuffle_loop: "wf_engine e \<Longrightarrow> wf_engine (shuffle_loop i e)"
proof (induction i e rule: shuffle_loop.induct)
  case (1 i e)
  show ?case
  proof (cases "0 < i")
    case False
    then show ?thesis using 1(2) by (simp add: shuffle_loop.simps)
  next
    case True
    obtain r e1 where pn: "prng_next e = (r, e1)" by (cases "prng_next e")
    then have w1: "wf_engine e1" using wf_prng_next [OF 1(2)] by simp
    note IH = 1(1) [OF True pn [symmetric] refl refl refl refl refl]
    have "wf_engine (e1\<lparr>perm := (perm e1)[i := perm e1 ! unat (r mod of_nat (i + 1)),
        unat (r mod of_nat (i + 1)) := perm e1 ! i]\<rparr>)"
      using w1 by (simp add: wf_engine_def)
    then show ?thesis
      using IH True pn by (subst shuffle_loop.simps) (simp add: Let_def)
  qed
qed

lemma wf_init_advanced:
  assumes "wf_engine e"
  shows "wf_engine (snd (simplex_noise_init_advanced config now e))"
proof (cases config)
  case None
  then show ?thesis using assms by (simp add: simplex_noise_init_advanced_def)
next
  case (Some c)
  define e2 where "e2 = (if cfg_seed c = 0
     then e\<lparr>global_config := c\<lparr>cfg_seed := ucast now\<rparr>\<rparr> else e\<lparr>global_config := c\<rparr>)"
  define e3 where "e3 = prng_init (cfg_seed (global_config e2)) e2"
  define e4 where "e4 = e3\<lparr>perm := perm_identity_loop 0 (perm e3)\<rparr>"
  define e5 where "e5 = shuffle_loop 255 e4"
  have "wf_engine e2" using assms by (simp add: e2_def wf_engine_def)
  then have "wf_engine e3" unfolding e3_def by (rule wf_prng_init)
  then have "wf_engine e4" by (simp add: e4_def wf_engine_def length_perm_identity_loop)
  then have w5: "wf_engine e5" unfolding e5_def by (rule wf_shuffle_loop)
  have "snd (simplex_noise_init_advanced config now e) =
        (let e6 = e5\<lparr>perm := perm_duplicate_loop 0 (perm e5)\<rparr>;
             e7 = e6\<lparr>perf_stats := perf_stats_zero, function_call_count := 0\<rparr>;
             e8 = (if cfg_enable_caching (global_config e7) \<noteq> 0
                   then e7\<lparr>cache_enabled := 1, noise_cache := cache_clear_loop 0 (noise_cache e7)\<rparr>
                   else e7)
         in e8\<lparr>profiling_enabled := cfg_enable_profiling (global_config e8), initialized := 1\<rparr>)"
    by (simp add: Some simplex_noise_init_advanced_def Let_def e5_def e4_def e3_def e2_def)
  then show ?thesis
    using w5 by (simp add: Let_def wf_engine_def length_perm_duplicate_loop length_cache_clear_loop)
qed

lemma wf_init: "wf_engine e \<Longrightarrow> wf_engine (simplex_noise_init seed now e)"
  by (simp add: simplex_noise_init_def Let_def wf_init_advanced)

lemma initialized_init: "initialized (simplex_noise_init seed now e) \<noteq> 0"
  by (simp add: simplex_noise_init_def Let_def initialized_after_init)

theorem caching_flag_no_effect_witness:
  "wf_engine (simplex_noise_init 12345 0 engine_zero) \<and>
   initialized (simplex_noise_init 12345 0 engine_zero) \<noteq> 0 \<and>
   fst (sample_seq [(0, Noise_3d (d_lit 1 1) (d_lit 2 1) (d_lit 3 1))]
          (snd (simplex_noise_init_advanced (Some simplex_get_default_config) 42
                  (simplex_noise_init 12345 0 engine_zero)))) =
   fst (sample_seq [(0, Noise_3d (d_lit 1 1) (d_lit 2 1) (d_lit 3 1))]
          (snd (simplex_noise_init_advanced
                  (Some (simplex_get_default_config\<lparr>cfg_enable_caching := 0\<rparr>)) 42
                  (simplex_noise_init 12345 0 engine_zero)))) \<and>
   fst (sample_seq [(0, Noise_3d (d_lit 1 1) (d_lit 2 1) (d_lit 3 1))]
          (snd (simplex_set_caching 0 (simplex_noise_init 12345 0 engine_zero)))) =
   fst (sample_seq [(0, Noise_3d (d_lit 1 1) (d_lit 2 1) (d_lit 3 1))]
          (simplex_noise_init 12345 0 engine_zero)) \<and>
   snd (sample_seq [(0, Noise_3d (d_lit 1 1) (d_lit 2 1) (d_lit 3 1))]
          (simplex_noise_init 12345 0 engine_zero)) =
   simplex_noise_init 12345 0 engine_zero"
proof -
  have w: "wf_engine (simplex_noise_init 12345 0 engine_zero)"
    by (rule wf_init) (rule wf_engine_zero)
  have i: "initialized (simplex_noise_init 12345 0 engine_zero) \<noteq> 0"
    by (rule initialized_init)
  show ?thesis
    using w i caching_flag_no_effect [OF w, of
        "[(0, Noise_3d (d_lit 1 1) (d_lit 2 1) (d_lit 3 1))]" simplex_get_default_config 42 0 0]
    by blast
qed

section \<open>The two-dimensional array filler\<close>

lemma sint_index:
  fixes y x width :: cint
  assumes "0 \<le> sint y" "0 \<le> sint x" "sint x < sint width"
    and "(sint y + 1) * sint width \<le> 2147483648"
  shows "sint (y * width + x) = sint y * sint width + sint x"
proof -
  have w: "0 < sint width" using assms by simp
  have "sint y * sint width + sint width \<le> 2147483648"
    using assms(4) by (simp add: algebra_simps)
  then have b: "sint y * sint width + sint x < 2147483648" using assms(3) by simp
  have nn: "0 \<le> sint y * sint width" using assms(1) w by simp
  then have b2: "sint y * sint width < 2147483648" using b assms(2) by simp
  have m: "sint (y * width) = sint y * sint width"
    using nn b2 by (simp add: sint_word_ariths signed_take_bit_int_eq_self)
  show ?thesis
    using nn b assms(2) by (simp add: sint_word_ariths m signed_take_bit_int_eq_self)
qed

lemma array_2d_x_cells:
  assumes "initialized e \<noteq> 0" "0 \<le> sint y" "0 \<le> sint x"
    and "(sint y + 1) * sint width \<le> 2147483648"
  shows "simplex_noise_array_2d_x now x_start y_start width step y x out e =
     (\<lambda>k. if sint y * sint width + sint x \<le> k \<and> k < sint y * sint width + sint width
          then noise_2d_body (perm e)
                 (fadd x_start (fmul (d_of_int (word_of_int (k - sint y * sint width))) step))
                 (fadd y_start (fmul (d_of_int y) step))
          else out k, e)"
  using assms
proof (induction now x_start y_start width step y x out e
    rule: simplex_noise_array_2d_x.induct)
  case (1 now x_start y_start width step y x out e)
  show ?case
  proof (cases "c_lt x width")
    case False
    then have neg: "(sint y * sint width + sint x \<le> k \<and> k < sint y * sint width + sint width) = False" for k
      by (simp add: c_lt_def)
    show ?thesis
      using False by (subst simplex_noise_array_2d_x.simps) (simp only: neg if_False)
  next
    case True
    let ?nx = "fadd x_start (fmul (d_of_int x) step)"
    let ?ny = "fadd y_start (fmul (d_of_int y) step)"
    let ?n = "noise_2d_body (perm e) ?nx ?ny"
    let ?o = "out(sint (y * width + x) := ?n)"
    have k: "simplex_noise_2d now ?nx ?ny e = (?n, e)"
      using 1(2) by (simp add: simplex_noise_2d_def Let_def lazy_init_def)
    have sx: "sint (x + 1) = sint x + 1" using c_lt_succ [OF True] .
    have idx: "sint (y * width + x) = sint y * sint width + sint x"
      using sint_index [OF 1(3,4) _ 1(5)] True by (simp add: c_lt_def)
    have step: "simplex_noise_array_2d_x now x_start y_start width step y x out e =
                simplex_noise_array_2d_x now x_start y_start width step y (x + 1) ?o e"
      using True k by (subst simplex_noise_array_2d_x.simps) (simp add: Let_def)
    have p: "0 \<le> sint (x + 1)" using sx 1(4) by simp
    note IH = 1(1) [OF True refl refl k [symmetric] 1(2,3) p 1(5)]
    have "(\<lambda>k. if sint y * sint width + sint (x + 1) \<le> k \<and> k < sint y * sint width + sint width
            then noise_2d_body (perm e)
                   (fadd x_start (fmul (d_of_int (word_of_int (k - sint y * sint width))) step))
                   ?ny
            else ?o k) =
          (\<lambda>k. if sint y * sint width + sint x \<le> k \<and> k < sint y * sint width + sint width
            then noise_2d_body (perm e)
                   (fadd x_start (fmul (d_of_int (word_of_int (k - sint y * sint width))) step))
                   ?ny
            else out k)"
    proof (rule ext)
      fix k
      show "(if sint y * sint width + sint (x + 1) \<le> k \<and> k < sint y * sint width + sint width
            then noise_2d_body (perm e)
                   (fadd x_start (fmul (d_of_int (word_of_int (k - sint y * sint width))) step))
                   ?ny
            else ?o k) =
          (if sint y * sint width + sint x \<le> k \<and> k < sint y * sint width + sint width
            then noise_2d_body (perm e)
                   (fadd x_start (fmul (d_of_int (word_of_int (k - sint y * sint width))) step))
                   ?ny
            else out k)"
      proof (cases "k = sint y * sint width + sint x")
        case True
        then show ?thesis using \<open>c_lt x width\<close> sx idx by (simp add: c_lt_def)
      next
        case False
        then show ?thesis using sx idx by auto
      qed
    qed
    then show ?thesis unfolding step IH by (rule arg_cong [where f = "\<lambda>f. (f, e)"])
  qed
qed


lemma array_2d_y_cells:
  assumes "initialized e \<noteq> 0" "0 \<le> sint y" "0 < sint width"
    and "sint height * sint width \<le> 2147483648"
  shows "simplex_noise_array_2d_y now x_start y_start width height step y out e =
     (\<lambda>k. if sint y * sint width \<le> k \<and> k < sint height * sint width
          then noise_2d_body (perm e)
                 (fadd x_start (fmul (d_of_int (word_of_int (k mod sint width))) step))
                 (fadd y_start (fmul (d_of_int (word_of_int (k div sint width))) step))
          else out k, e)"
  using assms
proof (induction now x_start y_start width height step y out e
    rule: simplex_noise_array_2d_y.induct)
  case (1 now x_start y_start width height step y out e)
  let ?W = "sint width" and ?H = "sint height" and ?Y = "sint y"
  let ?N = "\<lambda>a b. noise_2d_body (perm e)
                 (fadd x_start (fmul (d_of_int (word_of_int a)) step))
                 (fadd y_start (fmul (d_of_int (word_of_int b)) step))"
  show ?case
  proof (cases "c_lt y height")
    case False
    then have "?H * ?W \<le> ?Y * ?W" using 1(4) by (simp add: c_lt_def mult_right_mono)
    then have neg: "(?Y * ?W \<le> k \<and> k < ?H * ?W) = False" for k by auto
    show ?thesis
      using False by (subst simplex_noise_array_2d_y.simps) (simp only: neg if_False)
  next
    case True
    have sy: "sint (y + 1) = ?Y + 1" using c_lt_succ [OF True] .
    have yh: "?Y + 1 \<le> ?H" using True by (simp add: c_lt_def)
    then have "(?Y + 1) * ?W \<le> ?H * ?W" using 1(4) by (simp add: mult_right_mono)
    then have b: "(?Y + 1) * ?W \<le> 2147483648" using 1(5) by simp
    let ?o1 = "\<lambda>k. if ?Y * ?W + sint (0 :: cint) \<le> k \<and> k < ?Y * ?W + ?W
          then noise_2d_body (perm e)
                 (fadd x_start (fmul (d_of_int (word_of_int (k - ?Y * ?W))) step))
                 (fadd y_start (fmul (d_of_int y) step))
          else out k"
    have row: "simplex_noise_array_2d_x now x_start y_start width step y 0 out e = (?o1, e)"
      using array_2d_x_cells [OF 1(2,3) _ b, of 0 now x_start y_start step out] by simp
    have step: "simplex_noise_array_2d_y now x_start y_start width height step y out e =
                simplex_noise_array_2d_y now x_start y_start width height step (y + 1) ?o1 e"
      using True row by (subst simplex_noise_array_2d_y.simps) simp
    have p: "0 \<le> sint (y + 1)" using sy 1(3) by simp
    note IH = 1(1) [OF True row [symmetric] 1(2) p 1(4,5)]
    have "(\<lambda>k. if sint (y + 1) * ?W \<le> k \<and> k < ?H * ?W then ?N (k mod ?W) (k div ?W) else ?o1 k) =
          (\<lambda>k. if ?Y * ?W \<le> k \<and> k < ?H * ?W then ?N (k mod ?W) (k div ?W) else out k)"
    proof (rule ext)
      fix k
      show "(if sint (y + 1) * ?W \<le> k \<and> k < ?H * ?W then ?N (k mod ?W) (k div ?W) else ?o1 k) =
            (if ?Y * ?W \<le> k \<and> k < ?H * ?W then ?N (k mod ?W) (k div ?W) else out k)"
      proof (cases "?Y * ?W \<le> k \<and> k < ?Y * ?W + ?W")
        case False
        then show ?thesis using 1(4) unfolding sy by (auto simp: algebra_simps)
      next
        case True
        have z: "(k - ?Y * ?W) div ?W = 0"
          using True by (intro div_pos_pos_trivial) simp_all
        have "(k - ?Y * ?W + ?Y * ?W) div ?W = ?Y + (k - ?Y * ?W) div ?W"
          using 1(4) by (intro div_mult_self1) simp
        then have d: "k div ?W = ?Y" using z by simp
        have m: "k mod ?W = k - ?Y * ?W"
          using d by (simp add: minus_div_mult_eq_mod [symmetric] algebra_simps)
        have lt: "k < ?H * ?W"
          using True \<open>(?Y + 1) * ?W \<le> ?H * ?W\<close> by (simp add: algebra_simps)
        have "\<not> sint (y + 1) * ?W \<le> k" using True unfolding sy by (simp add: algebra_simps)
        then show ?thesis using True lt d m by simp
      qed
    qed
    then show ?thesis unfolding step IH by (rule arg_cong [where f = "\<lambda>f. (f, e)"])
  qed
qed

text \<open>
  Where every cell index fits \<^verbatim>\<open>int\<close> the filler does what its documentation says: in an
  initialised state, for a positive width \<open>W\<close> and height \<open>H\<close> with \<open>W * H \<le> 2 ^ 31\<close>, any
  origin and any step, \<^verbatim>\<open>simplex_noise_array_2d\<close> returns 0, leaves the state as it was,
  and the cell \<open>j * W + i\<close> of the buffer holds what \<^verbatim>\<open>simplex_noise_2d\<close> returns at
  \<open>(x_start + i * step, y_start + j * step)\<close>, for all \<open>0 \<le> i < W\<close> and \<open>0 \<le> j < H\<close>.
\<close>

theorem array_2d_fills_cells:
  assumes "initialized e \<noteq> 0" "0 < sint width" "0 < sint height"
    and "sint width * sint height \<le> 2147483648"
    and "0 \<le> i" "i < sint width" "0 \<le> j" "j < sint height"
  shows "\<exists>out'. simplex_noise_array_2d now x_start y_start width height step (Some out) e =
                  (0, Some out', e) \<and>
               out' (j * sint width + i) =
               fst (simplex_noise_2d now (fadd x_start (fmul (d_of_int (word_of_int i)) step))
                      (fadd y_start (fmul (d_of_int (word_of_int j)) step)) e)"
proof -
  let ?W = "sint width" and ?H = "sint height"
  let ?k = "j * ?W + i"
  have hw: "?H * ?W \<le> 2147483648" using assms(4) by (simp add: mult.commute)
  have fill: "simplex_noise_array_2d_y now x_start y_start width height step 0 out e =
     (\<lambda>k. if sint (0 :: cint) * ?W \<le> k \<and> k < ?H * ?W
          then noise_2d_body (perm e)
                 (fadd x_start (fmul (d_of_int (word_of_int (k mod ?W))) step))
                 (fadd y_start (fmul (d_of_int (word_of_int (k div ?W))) step))
          else out k, e)"
    using array_2d_y_cells [OF assms(1) _ assms(2) hw, of 0] by simp
  have d: "?k div ?W = j" using assms(5,6) by (simp add: div_pos_pos_trivial)
  have m: "i mod ?W = i" using assms(5,6) by simp
  have "j + 1 \<le> ?H" using assms(8) by simp
  then have "(j + 1) * ?W \<le> ?H * ?W" using assms(2) by (intro mult_right_mono) simp_all
  then have lt: "?k < ?H * ?W" using assms(6) by (simp add: algebra_simps)
  have ge: "0 \<le> ?k" using assms(2,5,7) by simp
  have k: "fst (simplex_noise_2d now a b e) = noise_2d_body (perm e) a b" for a b
    using assms(1) by (simp add: simplex_noise_2d_def Let_def lazy_init_def)
  have g: "\<not> (c_le width 0 \<or> c_le height 0)" using assms(2,3) by (simp add: c_le_def)
  show ?thesis
    using g ge lt by (simp add: simplex_noise_array_2d_def fill k d m)
qed

theorem array_2d_fills_cells_witness:
  "initialized (simplex_noise_init 12345 0 engine_zero) \<noteq> 0 \<and>
   0 < sint (3 :: cint) \<and> 0 < sint (2 :: cint) \<and> sint (3 :: cint) * sint (2 :: cint) \<le> 2147483648 \<and>
   (0 :: int) \<le> 2 \<and> 2 < sint (3 :: cint) \<and> (0 :: int) \<le> 1 \<and> 1 < sint (2 :: cint) \<and>
   (\<exists>out'. simplex_noise_array_2d 0 (d_lit 0 1) (d_lit 0 1) 3 2 (d_lit 1 100) (Some snan_buffer)
              (simplex_noise_init 12345 0 engine_zero) =
              (0, Some out', simplex_noise_init 12345 0 engine_zero) \<and>
            out' (1 * sint (3 :: cint) + 2) =
            fst (simplex_noise_2d 0 (fadd (d_lit 0 1) (fmul (d_of_int (word_of_int 2)) (d_lit 1 100)))
                   (fadd (d_lit 0 1) (fmul (d_of_int (word_of_int 1)) (d_lit 1 100)))
                   (simplex_noise_init 12345 0 engine_zero)))"
proof -
  have h: "initialized (simplex_noise_init 12345 0 engine_zero) \<noteq> 0"
    "0 < sint (3 :: cint)" "0 < sint (2 :: cint)" "sint (3 :: cint) * sint (2 :: cint) \<le> 2147483648"
    "(0 :: int) \<le> 2" "2 < sint (3 :: cint)" "(0 :: int) \<le> 1" "1 < sint (2 :: cint)"
    by (simp_all add: initialized_init)
  show ?thesis
    using h array_2d_fills_cells [OF h, of 0 "d_lit 0 1" "d_lit 0 1" "d_lit 1 100" snan_buffer]
    by blast
qed

lemma array_2d_x_frame:
  "2147483648 \<le> k \<Longrightarrow>
   fst (simplex_noise_array_2d_x now x_start y_start width step y x out e) k = out k"
proof (induction now x_start y_start width step y x out e
    rule: simplex_noise_array_2d_x.induct)
  case (1 now x_start y_start width step y x out e)
  show ?case
  proof (cases "c_lt x width")
    case False
    then show ?thesis by (subst simplex_noise_array_2d_x.simps) simp
  next
    case True
    obtain n e1 where k: "simplex_noise_2d now (fadd x_start (fmul (d_of_int x) step))
        (fadd y_start (fmul (d_of_int y) step)) e = (n, e1)"
      by (cases "simplex_noise_2d now (fadd x_start (fmul (d_of_int x) step))
        (fadd y_start (fmul (d_of_int y) step)) e")
    have "sint (y * width + x) < 2147483648" using sint_lt [of "y * width + x"] by simp
    then have ne: "k \<noteq> sint (y * width + x)" using 1(2) by simp
    have "fst (simplex_noise_array_2d_x now x_start y_start width step y x out e) k =
          fst (simplex_noise_array_2d_x now x_start y_start width step y (x + 1)
                 (out(sint (y * width + x) := n)) e1) k"
      using True k by (subst simplex_noise_array_2d_x.simps) (simp add: Let_def)
    also have "\<dots> = (out(sint (y * width + x) := n)) k"
      using 1(1) [OF True refl refl k [symmetric] 1(2)] .
    finally show ?thesis using ne by simp
  qed
qed

lemma array_2d_y_frame:
  "2147483648 \<le> k \<Longrightarrow>
   fst (simplex_noise_array_2d_y now x_start y_start width height step y out e) k = out k"
proof (induction now x_start y_start width height step y out e
    rule: simplex_noise_array_2d_y.induct)
  case (1 now x_start y_start width height step y out e)
  show ?case
  proof (cases "c_lt y height")
    case False
    then show ?thesis by (subst simplex_noise_array_2d_y.simps) simp
  next
    case True
    obtain o1 e1 where r: "simplex_noise_array_2d_x now x_start y_start width step y 0 out e = (o1, e1)"
      by (cases "simplex_noise_array_2d_x now x_start y_start width step y 0 out e")
    have "fst (simplex_noise_array_2d_y now x_start y_start width height step y out e) k =
          fst (simplex_noise_array_2d_y now x_start y_start width height step (y + 1) o1 e1) k"
      using True r by (subst simplex_noise_array_2d_y.simps) simp
    also have "\<dots> = o1 k" using 1(1) [OF True r [symmetric] 1(2)] .
    also have "\<dots> = out k" using array_2d_x_frame [OF 1(2), of now x_start y_start width step y 0 out e] r by simp
    finally show ?thesis .
  qed
qed

lemma if_neq: "(c \<Longrightarrow> a \<noteq> v) \<Longrightarrow> (\<not> c \<Longrightarrow> b \<noteq> v) \<Longrightarrow> (if c then a else b) \<noteq> v"
  by simp

lemma Let_neq: "(\<And>v. f v \<noteq> c) \<Longrightarrow> Let a f \<noteq> c"
  by simp

lemma d_zero_not_snan: "d_zero s \<noteq> 0x7FF0000000000001"
  by (simp add: d_zero_def)

lemma d_infinity_not_snan: "d_infinity s \<noteq> 0x7FF0000000000001"
  by (simp add: d_infinity_def)

lemma pattern_not_snan:
  assumes "\<not> 0x7FF0000000000000 \<le> bits"
  shows "d_zero s OR word_of_nat bits \<noteq> (0x7FF0000000000001 :: double)"
proof (cases s)
  case True
  show ?thesis
  proof
    assume "d_zero s OR word_of_nat bits = (0x7FF0000000000001 :: double)"
    then have "bit (d_zero s OR word_of_nat bits :: double) 63 =
               bit (0x7FF0000000000001 :: double) 63"
      by simp
    then show False using True by (simp add: d_zero_def bit_or_iff)
  qed
next
  case False
  have b: "bits < 2 ^ 64" using assms by simp
  have u: "unat (word_of_nat bits :: double) = bits"
    by (rule of_nat_inverse [OF refl]) (use b in simp)
  have "(word_of_nat bits :: double) \<noteq> 0x7FF0000000000001"
  proof
    assume "(word_of_nat bits :: double) = 0x7FF0000000000001"
    then have "unat (word_of_nat bits :: double) = unat (0x7FF0000000000001 :: double)"
      by (rule arg_cong)
    then have "bits = 0x7FF0000000000001" unfolding u by simp
    then show False using assms by simp
  qed
  then show ?thesis using False by (simp add: d_zero_def)
qed

lemma d_round_not_snan: "d_round s p q E \<noteq> 0x7FF0000000000001"
  unfolding d_round_def
  by (intro if_neq Let_neq d_zero_not_snan d_infinity_not_snan pattern_not_snan)

lemma d_quiet_not_snan: "d_quiet x \<noteq> 0x7FF0000000000001"
proof
  assume "d_quiet x = 0x7FF0000000000001"
  then have "bit (d_quiet x) 51 = bit (0x7FF0000000000001 :: double) 51"
    by simp
  then show False by (simp add: d_quiet_def bit_or_iff)
qed

lemma d_default_nan_not_snan: "d_default_nan \<noteq> 0x7FF0000000000001"
  by (simp add: d_default_nan_def)

lemma fmul_not_snan: "fmul a b \<noteq> 0x7FF0000000000001"
  unfolding fmul_def
  by (intro if_neq Let_neq d_quiet_not_snan d_default_nan_not_snan d_infinity_not_snan
      d_round_not_snan)


lemma noise_2d_body_not_snan: "noise_2d_body p x y \<noteq> 0x7FF0000000000001"
  unfolding noise_2d_body_def by (intro Let_neq fmul_not_snan)

text \<open>
  Claim C6. The claim asks, for every positive width and height, that the cell
  \<open>j * W + i\<close> of the buffer hold the kernel's value at
  \<open>(x_start + i * step, y_start + j * step)\<close>, and the header asks for a buffer of
  \<open>width * height\<close> elements. The code computes the index \<^verbatim>\<open>y * width + x\<close> in \<^verbatim>\<open>int\<close>. At
  width 65536 and height 32769 the cell \<open>(0, 32768)\<close> has the index \<open>2 ^ 31\<close>; the 32-bit
  expression gives \<open>- 2 ^ 31\<close> there, which is before the start of the buffer, and the
  cell itself keeps what it held before the call, here a pattern the kernel never
  returns.
\<close>

theorem array_2d_index_overflow:
  "sint (32768 * 65536 + 0 :: cint) = - 2147483648 \<and>
   the (fst (snd (simplex_noise_array_2d 0 (d_lit 0 1) (d_lit 0 1) 65536 32769 (d_lit 1 100)
                    (Some snan_buffer) (simplex_noise_init 12345 0 engine_zero))))
     (32768 * sint (65536 :: cint) + 0) =
   snan_buffer (32768 * sint (65536 :: cint) + 0) \<and>
   the (fst (snd (simplex_noise_array_2d 0 (d_lit 0 1) (d_lit 0 1) 65536 32769 (d_lit 1 100)
                    (Some snan_buffer) (simplex_noise_init 12345 0 engine_zero))))
     (32768 * sint (65536 :: cint) + 0) \<noteq>
   fst (simplex_noise_2d 0 (fadd (d_lit 0 1) (fmul (d_of_int (word_of_int 0)) (d_lit 1 100)))
          (fadd (d_lit 0 1) (fmul (d_of_int (word_of_int 32768)) (d_lit 1 100)))
          (simplex_noise_init 12345 0 engine_zero))"
proof -
  let ?e = "simplex_noise_init 12345 0 engine_zero"
  have g: "\<not> (c_le (65536 :: cint) 0 \<or> c_le (32769 :: cint) 0)" by (simp add: c_le_def)
  have "the (fst (snd (simplex_noise_array_2d 0 (d_lit 0 1) (d_lit 0 1) 65536 32769 (d_lit 1 100)
                    (Some snan_buffer) ?e))) 2147483648 =
        fst (simplex_noise_array_2d_y 0 (d_lit 0 1) (d_lit 0 1) 65536 32769 (d_lit 1 100) 0
               snan_buffer ?e) 2147483648"
    using g by (simp add: simplex_noise_array_2d_def case_prod_beta)
  also have "\<dots> = snan_buffer 2147483648"
    by (rule array_2d_y_frame) simp
  finally have l: "the (fst (snd (simplex_noise_array_2d 0 (d_lit 0 1) (d_lit 0 1) 65536 32769
      (d_lit 1 100) (Some snan_buffer) ?e))) 2147483648 = snan_buffer 2147483648" .
  have r: "fst (simplex_noise_2d 0 a b ?e) \<noteq> 0x7FF0000000000001" for a b
    by (simp add: simplex_noise_2d_def Let_def noise_2d_body_not_snan)
  have i: "32768 * sint (65536 :: cint) + 0 = 2147483648" by simp
  have o: "sint (32768 * 65536 + 0 :: cint) = - 2147483648" by simp
  show ?thesis
    unfolding i using o l r [symmetric] by (simp add: snan_buffer_def)
qed

end
